theory Spec2Isabelle
  imports Main "HOL-Library.Sublist" "HOL-Library.Word"
begin

unbundle bit_operations_syntax

section \<open>ggif: newest-file discovery, conversion pipeline, upload and watch loop\<close>

text \<open>
  The program is a sequential script around external tools. Its own functions are
  embedded from \<^verbatim>\<open>cmd/ggif/main.go\<close> (the convert-and-upload variants) and from the
  upload-only variant with the S3 uploader. Go strings are byte sequences and so are
  Isabelle's: \<^typ>\<open>string\<close> stands for both \<^verbatim>\<open>string\<close> and \<^verbatim>\<open>[]byte\<close>. A Go
  \<^verbatim>\<open>error\<close> is represented by its message.
\<close>

type_synonym go_error = string

subsection \<open>Standard-library functions the program calls\<close>

text \<open>
  \<^verbatim>\<open>strings.Join(elems, sep)\<close>.
\<close>

fun strings_Join :: "string list \<Rightarrow> string \<Rightarrow> string" where
  "strings_Join [] sep = []"
| "strings_Join [x] sep = x"
| "strings_Join (x # y # ys) sep = x @ sep @ strings_Join (y # ys) sep"

text \<open>
  The elements of a path between separators, as \<^verbatim>\<open>strings.Split(path, "/")\<close> gives them:
  a path with \<open>n\<close> separators has \<open>n + 1\<close> elements, some of them possibly empty.
\<close>

fun path_elems :: "string \<Rightarrow> string list" where
  "path_elems [] = [[]]"
| "path_elems (c # cs) =
     (if c = CHR ''/'' then [] # path_elems cs
      else (case path_elems cs of
              [] \<Rightarrow> [[c]]
            | e # es \<Rightarrow> (c # e) # es))"

text \<open>
  \<^verbatim>\<open>filepath.Clean\<close> on Unix, by the rules of its documentation: multiple separators
  collapse, every \<^verbatim>\<open>.\<close> element goes, an inner \<^verbatim>\<open>..\<close> goes together with the
  element before it, a \<^verbatim>\<open>..\<close> that begins a rooted path goes, and one that begins a
  relative path stays. \<open>out\<close> holds the elements written so far; only leading \<^verbatim>\<open>..\<close>
  elements of a relative path are ever kept in it, so a \<^verbatim>\<open>..\<close> can backtrack exactly
  when the last element written is not \<^verbatim>\<open>..\<close>. The empty result is \<^verbatim>\<open>.\<close>.
\<close>

fun clean_elems :: "bool \<Rightarrow> string list \<Rightarrow> string list \<Rightarrow> string list" where
  "clean_elems rooted [] out = out"
| "clean_elems rooted (e # es) out =
     (if e = [] \<or> e = ''.'' then clean_elems rooted es out
      else if e = ''..'' then
        (if out \<noteq> [] \<and> last out \<noteq> ''..'' then clean_elems rooted es (butlast out)
         else if \<not> rooted then clean_elems rooted es (out @ [''..''])
         else clean_elems rooted es out)
      else clean_elems rooted es (out @ [e]))"

definition Clean :: "string \<Rightarrow> string" where
  "Clean path =
     (if path = [] then ''.''
      else
        (let rooted = (hd path = CHR ''/'');
             out = clean_elems rooted (path_elems path) [];
             s = (if rooted then ''/'' else []) @ strings_Join out ''/''
         in if s = [] then ''.'' else s))"

text \<open>
  \<^verbatim>\<open>filepath.Join\<close>: empty elements before the first non-empty one are ignored, the rest
  is joined with the separator and cleaned; when every element is empty the result is
  the empty string.
\<close>

definition filepath_Join :: "string list \<Rightarrow> string" where
  "filepath_Join elem =
     (case dropWhile (\<lambda>e. e = []) elem of
        [] \<Rightarrow> []
      | es \<Rightarrow> Clean (strings_Join es ''/''))"

text \<open>
  Decimal rendering of an integer, as the verb \<^verbatim>\<open>%d\<close> prints it.
\<close>

definition digit_char :: "nat \<Rightarrow> char" where
  "digit_char d = ''0123456789'' ! d"

fun nat_digits :: "nat \<Rightarrow> string" where
  "nat_digits n =
     (if n < 10 then [digit_char n] else nat_digits (n div 10) @ [digit_char (n mod 10)])"

declare nat_digits.simps [simp del]

definition itoa :: "int \<Rightarrow> string" where
  "itoa i = (if i < 0 then CHR ''-'' # nat_digits (nat (- i)) else nat_digits (nat i))"

text \<open>
  \<^verbatim>\<open>fmt.Sprintf\<close> for the verbs the program uses: \<^verbatim>\<open>%s\<close> and \<^verbatim>\<open>%d\<close> (and \<^verbatim>\<open>%v\<close>,
  \<^verbatim>\<open>%%\<close>), the verb being the character right after the percent sign. Flags, width,
  precision and argument indexes are not modelled; no format string that the program
  passes to \<^verbatim>\<open>Sprintf\<close> has any. A verb that does not fit its operand, a missing operand
  and surplus operands print Go's diagnostics.
\<close>

datatype fmt_arg = ArgString string | ArgInt int | ArgInt64 int

fun arg_type :: "fmt_arg \<Rightarrow> string" where
  "arg_type (ArgString s) = ''string''"
| "arg_type (ArgInt i) = ''int''"
| "arg_type (ArgInt64 i) = ''int64''"

fun arg_value :: "fmt_arg \<Rightarrow> string" where
  "arg_value (ArgString s) = s"
| "arg_value (ArgInt i) = itoa i"
| "arg_value (ArgInt64 i) = itoa i"

definition bad_verb :: "char \<Rightarrow> fmt_arg \<Rightarrow> string" where
  "bad_verb v a = ''%!'' @ [v] @ ''('' @ arg_type a @ ''='' @ arg_value a @ '')''"

fun fmt_verb :: "char \<Rightarrow> fmt_arg \<Rightarrow> string" where
  "fmt_verb v (ArgString s) =
     (if v = CHR ''s'' \<or> v = CHR ''v'' then s else bad_verb v (ArgString s))"
| "fmt_verb v (ArgInt i) =
     (if v = CHR ''d'' \<or> v = CHR ''v'' then itoa i else bad_verb v (ArgInt i))"
| "fmt_verb v (ArgInt64 i) =
     (if v = CHR ''d'' \<or> v = CHR ''v'' then itoa i else bad_verb v (ArgInt64 i))"

definition fmt_extra :: "fmt_arg list \<Rightarrow> string" where
  "fmt_extra args =
     (if args = [] then []
      else ''%!(EXTRA '' @
           strings_Join (map (\<lambda>a. arg_type a @ ''='' @ arg_value a) args) '', '' @ '')'')"

fun Sprintf :: "string \<Rightarrow> fmt_arg list \<Rightarrow> string" where
  "Sprintf [] args = fmt_extra args"
| "Sprintf [c] args = (if c = CHR ''%'' then ''%!(NOVERB)'' @ fmt_extra args else c # fmt_extra args)"
| "Sprintf (c # v # fs) args =
     (if c \<noteq> CHR ''%'' then c # Sprintf (v # fs) args
      else if v = CHR ''%'' then CHR ''%'' # Sprintf fs args
      else (case args of
              [] \<Rightarrow> ''%!'' @ [v] @ ''(MISSING)'' @ Sprintf fs []
            | a # as \<Rightarrow> fmt_verb v a @ Sprintf fs as))"

subsection \<open>The world the program runs in\<close>

text \<open>
  What the operating system holds and external commands may change: the answers of
  \<^verbatim>\<open>ioutil.ReadDir\<close>, \<^verbatim>\<open>os.Stat\<close> and \<^verbatim>\<open>ioutil.ReadFile\<close>, the paths that exist as far as
  \<^verbatim>\<open>ioutil.TempDir\<close> and \<^verbatim>\<open>os.RemoveAll\<close> are concerned, the clipboard, and the clock
  in whole seconds (\<^verbatim>\<open>time.Now().Unix()\<close>). A modification time is an \<^verbatim>\<open>int64\<close> that the
  program only compares, so its range plays no role and it is an \<^typ>\<open>int\<close>.
\<close>

record file_info =
  fi_Name :: string
  fi_ModTime_Unix :: int

record os_state =
  os_ReadDir :: "string \<Rightarrow> file_info list \<times> go_error option"
  os_Stat :: "string \<Rightarrow> go_error + file_info"
  os_ReadFile :: "string \<Rightarrow> string \<times> go_error option"
  os_exists :: "string set"
  os_clipboard :: string
  os_now :: int

text \<open>
  What the program does to the outside, in the order in which it does it: the calls of
  the logger (level and operands, whatever the configured level lets through), the
  external commands run (with what they printed and the error they returned), the
  lines printed to standard output, the writes to the clipboard and the removals of
  directory trees (each with the error it returned).
\<close>

datatype log_level = CRITICAL | ERROR | DEBUG

datatype log_arg = LString string | LStrings "string list" | LError go_error | LEvent string "32 word"

datatype effect =
    Logged log_level "log_arg list"
  | Ran "string list" string "go_error option"
  | Printed string
  | ClipboardWritten string "go_error option"
  | Removed string "go_error option"

record world =
  w_os :: os_state
  w_trace :: "effect list"

text \<open>
  What the program cannot decide: how \<^verbatim>\<open>filetype.IsVideo\<close> classifies a buffer; what an
  external command prints, whether it fails and what it does to the operating system's
  state; which directory \<^verbatim>\<open>ioutil.TempDir\<close> creates, or the error it returns; whether
  \<^verbatim>\<open>clipboard.WriteAll\<close> and \<^verbatim>\<open>os.RemoveAll\<close> fail, and the state they leave.
\<close>

record env =
  e_IsVideo :: "string \<Rightarrow> bool"
  e_CombinedOutput :: "string list \<Rightarrow> os_state \<Rightarrow> (string \<times> go_error option) \<times> os_state"
  e_TempDir :: "string \<Rightarrow> string \<Rightarrow> os_state \<Rightarrow> go_error + string"
  e_WriteAll :: "string \<Rightarrow> os_state \<Rightarrow> go_error option \<times> os_state"
  e_RemoveAll :: "string \<Rightarrow> os_state \<Rightarrow> go_error option \<times> os_state"

text \<open>
  A function either returns or ends the process: \<^verbatim>\<open>log.Fatal\<close> logs at the critical
  level and calls \<^verbatim>\<open>os.Exit(1)\<close>, which runs no deferred call.
\<close>

datatype 'a outcome = Returns 'a | Exits

definition emit :: "effect \<Rightarrow> 'a world_scheme \<Rightarrow> 'a world_scheme" where
  "emit x w = w\<lparr>w_trace := w_trace w @ [x]\<rparr>"

definition log_Debug :: "log_arg list \<Rightarrow> 'a world_scheme \<Rightarrow> 'a world_scheme" where
  "log_Debug args w = emit (Logged DEBUG args) w"

definition log_Error :: "log_arg list \<Rightarrow> 'a world_scheme \<Rightarrow> 'a world_scheme" where
  "log_Error args w = emit (Logged ERROR args) w"

definition log_Fatal :: "log_arg list \<Rightarrow> 'a world_scheme \<Rightarrow> 'b outcome \<times> 'a world_scheme" where
  "log_Fatal args w = (Exits, emit (Logged CRITICAL args) w)"

definition fmt_Println :: "string \<Rightarrow> 'a world_scheme \<Rightarrow> 'a world_scheme" where
  "fmt_Println s w = emit (Printed s) w"

text \<open>
  \<^verbatim>\<open>clipboard.WriteAll\<close> returns an error. A write that returns none leaves the text on
  the clipboard; a write that fails leaves whatever the system says it leaves.
\<close>

definition clipboard_WriteAll ::
  "env \<Rightarrow> string \<Rightarrow> 'a world_scheme \<Rightarrow> go_error option \<times> 'a world_scheme" where
  "clipboard_WriteAll e s w =
     (let (err, os') = e_WriteAll e s (w_os w);
          os'' = (case err of
                    None \<Rightarrow> os'\<lparr>os_clipboard := s\<rparr>
                  | Some msg \<Rightarrow> os')
      in (err, emit (ClipboardWritten s err) (w\<lparr>w_os := os''\<rparr>)))"

text \<open>
  \<^verbatim>\<open>ioutil.TempDir\<close> creates the directory it names. \<^verbatim>\<open>os.RemoveAll\<close> returns an error
  too: without one, the path and everything below it are gone; with one, it has removed
  what it could, which is for the system to say.
\<close>

definition ioutil_TempDir ::
  "env \<Rightarrow> string \<Rightarrow> string \<Rightarrow> 'a world_scheme \<Rightarrow> (go_error + string) \<times> 'a world_scheme" where
  "ioutil_TempDir e dir pattern w =
     (case e_TempDir e dir pattern (w_os w) of
        Inl err \<Rightarrow> (Inl err, w)
      | Inr name \<Rightarrow> (Inr name, w\<lparr>w_os := (w_os w)\<lparr>os_exists := insert name (os_exists (w_os w))\<rparr>\<rparr>))"

definition os_RemoveAll ::
  "env \<Rightarrow> string \<Rightarrow> 'a world_scheme \<Rightarrow> go_error option \<times> 'a world_scheme" where
  "os_RemoveAll e path w =
     (let (err, os') = e_RemoveAll e path (w_os w);
          os'' = (case err of
                    None \<Rightarrow>
                      os'\<lparr>os_exists :=
                            {p \<in> os_exists os'. p \<noteq> path \<and> \<not> prefix (path @ ''/'') p}\<rparr>
                  | Some msg \<Rightarrow> os')
      in (err, emit (Removed path err) (w\<lparr>w_os := os''\<rparr>)))"

subsection \<open>Logging helpers and newest-file discovery\<close>

definition printError :: "go_error option \<Rightarrow> 'a world_scheme \<Rightarrow> 'a world_scheme" where
  "printError err w = (case err of None \<Rightarrow> w | Some msg \<Rightarrow> log_Error [LString msg] w)"

definition printOutput :: "string \<Rightarrow> 'a world_scheme \<Rightarrow> 'a world_scheme" where
  "printOutput outs w = (if length outs > 0 then log_Debug [LString outs] w else w)"

text \<open>
  The loop of \<^verbatim>\<open>findNewestFile\<close> over the listing, on the pair
  \<^verbatim>\<open>(newestFile, newestTime)\<close>. The file is stat'ed and read before it is classified; a
  failed read leaves whatever buffer \<^verbatim>\<open>ReadFile\<close> returned.
\<close>

fun findNewestFile_loop ::
  "env \<Rightarrow> string \<Rightarrow> file_info list \<Rightarrow> string \<times> int \<Rightarrow> 'a world_scheme
     \<Rightarrow> (string \<times> int) \<times> 'a world_scheme" where
  "findNewestFile_loop e dir [] (newestFile, newestTime) w = ((newestFile, newestTime), w)"
| "findNewestFile_loop e dir (f # files) (newestFile, newestTime) w =
     (let fname = filepath_Join [dir, fi_Name f];
          st = os_Stat (w_os w) fname;
          buf = fst (os_ReadFile (w_os w) fname)
      in if \<not> e_IsVideo e buf then findNewestFile_loop e dir files (newestFile, newestTime) w
         else (case st of
                 Inl err \<Rightarrow>
                   findNewestFile_loop e dir files (newestFile, newestTime)
                     (log_Error [LString err] w)
               | Inr fi \<Rightarrow>
                   (let currTime = fi_ModTime_Unix fi
                    in if currTime > newestTime
                       then findNewestFile_loop e dir files (fi_Name f, currTime) w
                       else findNewestFile_loop e dir files (newestFile, newestTime) w)))"

definition findNewestFile :: "env \<Rightarrow> string \<Rightarrow> 'a world_scheme \<Rightarrow> string \<times> 'a world_scheme" where
  "findNewestFile e dir w =
     (let files = fst (os_ReadDir (w_os w) dir);
          (newest, w') = findNewestFile_loop e dir files ([], 0) w
      in (filepath_Join [dir, fst newest], w'))"

subsection \<open>Running commands, encoding and uploading\<close>

definition runCmd :: "env \<Rightarrow> string \<Rightarrow> string list \<Rightarrow> 'a world_scheme \<Rightarrow> 'a world_scheme" where
  "runCmd e name arg w =
     (let args = name # arg;
          w1 = log_Debug [LStrings args] w;
          ((output, err), os') = e_CombinedOutput e args (w_os w1);
          w2 = emit (Ran args output err) (w1\<lparr>w_os := os'\<rparr>);
          w3 = printOutput output w2
      in printError err w3)"

definition createTmpDir :: "env \<Rightarrow> 'a world_scheme \<Rightarrow> string outcome \<times> 'a world_scheme" where
  "createTmpDir e w =
     (case ioutil_TempDir e ''/tmp'' ''pngs'' w of
        (Inl err, w') \<Rightarrow> log_Fatal [LError err] w'
      | (Inr dir, w') \<Rightarrow> (Returns dir, w'))"

text \<open>
  The flags of the convert-and-upload variants, as \<^verbatim>\<open>c.Int\<close> and \<^verbatim>\<open>c.String\<close> read them.
\<close>

record config =
  c_width :: int
  c_frames :: int
  c_quality :: int
  c_src :: string
  c_dist :: string
  c_bucket :: string

definition createGif ::
  "env \<Rightarrow> config \<Rightarrow> string \<Rightarrow> string \<Rightarrow> 'a world_scheme \<Rightarrow> 'a world_scheme" where
  "createGif e c tmpDir outfn w =
     (let infn = filepath_Join [tmpDir, ''*.png''];
          cmdin = Sprintf ''gifski -W %d -r %d -Q %d -o %s %s''
                    [ArgInt (c_width c), ArgInt (c_frames c), ArgInt (c_quality c),
                     ArgString outfn, ArgString infn]
      in runCmd e ''/bin/sh'' [''-c'', cmdin] w)"

text \<open>The uploaders discard the error of \<^verbatim>\<open>clipboard.WriteAll\<close>.\<close>

definition uploadGCP ::
  "env \<Rightarrow> string \<Rightarrow> string \<Rightarrow> string \<Rightarrow> 'a world_scheme \<Rightarrow> 'a world_scheme" where
  "uploadGCP e bucket outfn outputFile w =
     (if bucket = [] then w
      else
        (let w1 = runCmd e ''gsutil'' [''cp'', outfn, Sprintf ''gs://%s'' [ArgString bucket]] w;
             url = Sprintf ''https://storage.googleapis.com/%s/%s''
                     [ArgString bucket, ArgString outputFile];
             w2 = fmt_Println url w1
         in snd (clipboard_WriteAll e url w2)))"

text \<open>The S3 uploader of the upload-only variant.\<close>

definition uploadS3 ::
  "env \<Rightarrow> string \<Rightarrow> string \<Rightarrow> string \<Rightarrow> 'a world_scheme \<Rightarrow> 'a world_scheme" where
  "uploadS3 e bucket videoFile bucketFile w =
     (if bucket = [] then w
      else
        (let w1 = runCmd e ''aws''
                    [''s3'', ''cp'', videoFile,
                     Sprintf ''s3://%s/%s'' [ArgString bucket, ArgString bucketFile],
                     ''--acl'', ''public-read''] w;
             url = Sprintf ''https://%s.s3.amazonaws.com/%s''
                     [ArgString bucket, ArgString bucketFile];
             w2 = fmt_Println url w1
         in snd (clipboard_WriteAll e url w2)))"

subsection \<open>The conversion pipeline\<close>

text \<open>
  \<^verbatim>\<open>process(c)\<close> of the first variant: the video file is the first positional argument
  or, without one, what \<^verbatim>\<open>findNewestFile\<close> returns for \<^verbatim>\<open>src\<close>. The deferred
  \<^verbatim>\<open>os.RemoveAll\<close> runs when the function returns, its error discarded, and does not
  run when \<^verbatim>\<open>log.Fatal\<close> ends the process.
\<close>

definition process ::
  "env \<Rightarrow> config \<Rightarrow> string list \<Rightarrow> 'a world_scheme \<Rightarrow> unit outcome \<times> 'a world_scheme" where
  "process e c args w =
     (let (videoFile, w0) =
            (if length args \<ge> 1 then (args ! 0, w) else findNewestFile e (c_src c) w)
      in if videoFile = []
         then log_Fatal [LString ''No file specified and no file found in config.Src, exiting''] w0
         else
           (case createTmpDir e w0 of
              (Exits, w1) \<Rightarrow> (Exits, w1)
            | (Returns tmpDir, w1) \<Rightarrow>
                (let tmpfn = filepath_Join [tmpDir, ''frame%04d.png''];
                     w2 = runCmd e ''ffmpeg'' [''-i'', videoFile, tmpfn] w1;
                     newName = os_now (w_os w2);
                     outputFile = Sprintf ''%d.gif'' [ArgInt64 newName];
                     distDir = c_dist c;
                     distDir = (if distDir = [] then c_src c else distDir);
                     outfn = filepath_Join [distDir, outputFile];
                     w3 = createGif e c tmpDir outfn w2;
                     w4 = uploadGCP e (c_bucket c) outfn outputFile w3
                 in (Returns (), snd (os_RemoveAll e tmpDir w4)))))"

text \<open>
  \<^verbatim>\<open>process(c, videoFile)\<close> of the watching variant, which is given the video file.
\<close>

definition process_file ::
  "env \<Rightarrow> config \<Rightarrow> string \<Rightarrow> 'a world_scheme \<Rightarrow> unit outcome \<times> 'a world_scheme" where
  "process_file e c videoFile w =
     (if videoFile = []
      then log_Fatal [LString ''No file specified and no file found in config.Src, exiting''] w
      else
        (case createTmpDir e w of
           (Exits, w1) \<Rightarrow> (Exits, w1)
         | (Returns tmpDir, w1) \<Rightarrow>
             (let tmpfn = filepath_Join [tmpDir, ''frame%04d.png''];
                  w2 = runCmd e ''ffmpeg'' [''-i'', videoFile, tmpfn] w1;
                  newName = os_now (w_os w2);
                  outputFile = Sprintf ''%d.gif'' [ArgInt64 newName];
                  distDir = c_dist c;
                  distDir = (if distDir = [] then c_src c else distDir);
                  outfn = filepath_Join [distDir, outputFile];
                  w3 = createGif e c tmpDir outfn w2;
                  w4 = uploadGCP e (c_bucket c) outfn outputFile w3
              in (Returns (), snd (os_RemoveAll e tmpDir w4)))))"

subsection \<open>The watch loop\<close>

text \<open>
  An \<^verbatim>\<open>fsnotify.Event\<close> and the bits of its \<^verbatim>\<open>Op\<close>, \<^verbatim>\<open>1 << iota\<close> in the order
  Create, Write, Remove, Rename, Chmod.
\<close>

record event =
  ev_Name :: string
  ev_Op :: "32 word"

definition fsnotify_Create :: "32 word" where "fsnotify_Create = 1"
definition fsnotify_Write :: "32 word" where "fsnotify_Write = 2"
definition fsnotify_Remove :: "32 word" where "fsnotify_Remove = 4"
definition fsnotify_Rename :: "32 word" where "fsnotify_Rename = 8"
definition fsnotify_Chmod :: "32 word" where "fsnotify_Chmod = 16"

text \<open>
  What the goroutine of \<^verbatim>\<open>watch\<close> receives, in the order its \<^verbatim>\<open>select\<close> takes it: an
  event or the closing of the event channel, an error or the closing of the error
  channel. The loop runs on the messages received so far; with none left it blocks
  in the \<^verbatim>\<open>select\<close>. It ends when a channel is closed, or with the process when the
  pipeline ends it. The pipeline is a parameter: both watching variants have this loop,
  each around its own \<^verbatim>\<open>process(c, event.Name)\<close>.
\<close>

datatype recv = RecvEvent event | EventsClosed | RecvError go_error | ErrorsClosed

datatype loop_state = Blocked | LoopReturned | ProcessExited

fun watch_loop ::
  "(string \<Rightarrow> 'a world_scheme \<Rightarrow> unit outcome \<times> 'a world_scheme) \<Rightarrow> recv list
     \<Rightarrow> 'a world_scheme \<Rightarrow> loop_state \<times> 'a world_scheme" where
  "watch_loop proc [] w = (Blocked, w)"
| "watch_loop proc (EventsClosed # ms) w = (LoopReturned, w)"
| "watch_loop proc (ErrorsClosed # ms) w = (LoopReturned, w)"
| "watch_loop proc (RecvError err # ms) w =
     watch_loop proc ms (log_Debug [LString ''error:'', LError err] w)"
| "watch_loop proc (RecvEvent ev # ms) w =
     (let w1 = log_Debug [LString ''event:'', LEvent (ev_Name ev) (ev_Op ev)] w
      in if ev_Op ev AND fsnotify_Create = fsnotify_Create
         then
           (let w2 = log_Debug [LString ''modified file:'', LString (ev_Name ev)] w1
            in case proc (ev_Name ev) w2 of
                 (Exits, w3) \<Rightarrow> (ProcessExited, w3)
               | (Returns u, w3) \<Rightarrow> watch_loop proc ms w3)
         else watch_loop proc ms w1)"

subsection \<open>Notions used to state the properties\<close>

text \<open>
  The path \<^verbatim>\<open>findNewestFile\<close> stats and reads for an entry of the listing, whether the
  entry is classified as a video, and its modification time when \<^verbatim>\<open>os.Stat\<close> succeeds.
  A candidate is a video-classified entry with a modification time.
\<close>

definition entry_path :: "string \<Rightarrow> file_info \<Rightarrow> string" where
  "entry_path dir f = filepath_Join [dir, fi_Name f]"

definition video_entry :: "env \<Rightarrow> os_state \<Rightarrow> string \<Rightarrow> file_info \<Rightarrow> bool" where
  "video_entry e os dir f = e_IsVideo e (fst (os_ReadFile os (entry_path dir f)))"

definition entry_mtime :: "os_state \<Rightarrow> string \<Rightarrow> file_info \<Rightarrow> int option" where
  "entry_mtime os dir f =
     (case os_Stat os (entry_path dir f) of
        Inl err \<Rightarrow> None
      | Inr fi \<Rightarrow> Some (fi_ModTime_Unix fi))"

definition candidate :: "env \<Rightarrow> os_state \<Rightarrow> string \<Rightarrow> file_info \<Rightarrow> int \<Rightarrow> bool" where
  "candidate e os dir f t = (video_entry e os dir f \<and> entry_mtime os dir f = Some t)"

text \<open>
  The path of a file directly under a directory: the cleaned directory, a separator and
  the file name, where the root brings its own separator and the current directory
  (\<^verbatim>\<open>.\<close>, which is also what the empty directory name cleans to) is not written.
\<close>

definition directly_under :: "string \<Rightarrow> string \<Rightarrow> string" where
  "directly_under dir file =
     (if Clean dir = ''.'' then file
      else if Clean dir = ''/'' then ''/'' @ file
      else Clean dir @ ''/'' @ file)"

text \<open>A path element that \<^verbatim>\<open>filepath.Clean\<close> keeps unless it is \<^verbatim>\<open>..\<close>.\<close>

definition plain_elem :: "string \<Rightarrow> bool" where
  "plain_elem e = (e \<noteq> [] \<and> e \<noteq> ''.'' \<and> CHR ''/'' \<notin> set e)"

text \<open>
  The external commands of a trace, in order, and the part of a trace that one call of
  \<^verbatim>\<open>runCmd\<close> adds: the arguments logged, the command run, its output logged when there
  is some, its error logged when there is one.
\<close>

fun ran_cmds :: "effect list \<Rightarrow> string list list" where
  "ran_cmds [] = []"
| "ran_cmds (Ran args output err # tr) = args # ran_cmds tr"
| "ran_cmds (x # tr) = ran_cmds tr"

definition w_cmds :: "'a world_scheme \<Rightarrow> string list list" where
  "w_cmds w = ran_cmds (w_trace w)"

definition runCmd_trace :: "string list \<Rightarrow> string \<Rightarrow> go_error option \<Rightarrow> effect list" where
  "runCmd_trace args output err =
     [Logged DEBUG [LStrings args], Ran args output err] @
     (if length output > 0 then [Logged DEBUG [LString output]] else []) @
     (case err of None \<Rightarrow> [] | Some msg \<Rightarrow> [Logged ERROR [LString msg]])"

text \<open>An operation mask includes a kind when it shares a bit with it.\<close>

definition op_includes :: "32 word \<Rightarrow> 32 word \<Rightarrow> bool" where
  "op_includes op kind = (op AND kind \<noteq> 0)"

definition received_events :: "recv list \<Rightarrow> event list" where
  "received_events ms = concat (map (\<lambda>m. case m of RecvEvent ev \<Rightarrow> [ev] | _ \<Rightarrow> []) ms)"

text \<open>
  A pipeline that also records the path of each of its invocations, in a field the
  program does not know of.
\<close>

record traced_world = world +
  invoked :: "string list"

definition traced ::
  "(string \<Rightarrow> traced_world \<Rightarrow> unit outcome \<times> traced_world)
     \<Rightarrow> string \<Rightarrow> traced_world \<Rightarrow> unit outcome \<times> traced_world" where
  "traced proc name w = proc name (w\<lparr>invoked := invoked w @ [name]\<rparr>)"

text \<open>
  What the record of invocations must be when the loop has taken \<open>n\<close> messages and is in
  state \<open>st\<close>: the paths of the events among them that include creation, in order. A
  blocked loop has taken every message; a returned loop stopped at the closing of a
  channel; a loop that ended with the process stopped right after a creation event.
\<close>

definition watch_trace_ok ::
  "recv list \<Rightarrow> traced_world \<Rightarrow> loop_state \<Rightarrow> traced_world \<Rightarrow> nat \<Rightarrow> bool" where
  "watch_trace_ok msgs w st w' n =
     (n \<le> length msgs \<and>
      invoked w' = invoked w @
        map ev_Name (filter (\<lambda>ev. op_includes (ev_Op ev) fsnotify_Create)
                       (received_events (take n msgs))) \<and>
      (st = Blocked \<longrightarrow> n = length msgs) \<and>
      (st = LoopReturned \<longrightarrow>
         n < length msgs \<and> (msgs ! n = EventsClosed \<or> msgs ! n = ErrorsClosed)) \<and>
      (st = ProcessExited \<longrightarrow>
         0 < n \<and> (\<exists>ev. msgs ! (n - 1) = RecvEvent ev \<and> op_includes (ev_Op ev) fsnotify_Create)))"

subsection \<open>A small concrete world\<close>

text \<open>
  Four directories: an empty one, one whose only video dates from the epoch, one with
  two videos of the same modification time, and one with two videos and a newer text
  file; every other directory is unreadable. A buffer counts as a video when bytes 4 to
  7 spell \<^verbatim>\<open>ftyp\<close>.
\<close>

definition ex_video :: string where "ex_video = ''0000ftypisom''"

definition ex_files :: "(string \<times> int \<times> string) list" where
  "ex_files =
     [(''/epoch/old.mp4'', 0, ex_video),
      (''/ties/a.mp4'', 5, ex_video),
      (''/ties/b.mp4'', 5, ex_video),
      (''/videos/a.mp4'', 10, ex_video),
      (''/videos/b.txt'', 99, ''hello''),
      (''/videos/c.mp4'', 20, ex_video)]"

definition ex_entry :: "string \<Rightarrow> file_info" where
  "ex_entry n = \<lparr>fi_Name = n, fi_ModTime_Unix = 0\<rparr>"

definition ex_ReadDir :: "string \<Rightarrow> file_info list \<times> go_error option" where
  "ex_ReadDir dir =
     (if dir = ''/empty'' then ([], None)
      else if dir = ''/epoch'' then ([ex_entry ''old.mp4''], None)
      else if dir = ''/ties'' then ([ex_entry ''a.mp4'', ex_entry ''b.mp4''], None)
      else if dir = ''/videos''
      then ([ex_entry ''a.mp4'', ex_entry ''b.txt'', ex_entry ''c.mp4''], None)
      else ([], Some ''no such file or directory''))"

definition ex_os :: os_state where
  "ex_os =
     \<lparr>os_ReadDir = ex_ReadDir,
      os_Stat = (\<lambda>p. case map_of ex_files p of
                        None \<Rightarrow> Inl ''no such file or directory''
                      | Some (t, b) \<Rightarrow> Inr \<lparr>fi_Name = p, fi_ModTime_Unix = t\<rparr>),
      os_ReadFile = (\<lambda>p. case map_of ex_files p of
                            None \<Rightarrow> ([], Some ''no such file or directory'')
                          | Some (t, b) \<Rightarrow> (b, None)),
      os_exists = {''/tmp''},
      os_clipboard = ''old clipboard'',
      os_now = 1700000000\<rparr>"

definition ex_world :: world where
  "ex_world = \<lparr>w_os = ex_os, w_trace = []\<rparr>"

text \<open>
  Every external command fails with exit status 1, prints a line and lets a second
  pass on the clock; \<^verbatim>\<open>TempDir\<close> creates \<^verbatim>\<open>/tmp/pngs123\<close>; the clipboard write and the
  removal succeed. In the second environment they fail and change nothing.
\<close>

definition ex_env :: env where
  "ex_env =
     \<lparr>e_IsVideo = (\<lambda>buf. take 4 (drop 4 buf) = ''ftyp''),
      e_CombinedOutput = (\<lambda>args os. ((''failed'', Some ''exit status 1''), os\<lparr>os_now := os_now os + 1\<rparr>)),
      e_TempDir = (\<lambda>dir pattern os. Inr (dir @ ''/'' @ pattern @ ''123'')),
      e_WriteAll = (\<lambda>s os. (None, os)),
      e_RemoveAll = (\<lambda>path os. (None, os))\<rparr>"

definition ex_env_failing :: env where
  "ex_env_failing =
     ex_env\<lparr>e_WriteAll := (\<lambda>s os. (Some ''no clipboard utilities available'', os)),
            e_RemoveAll := (\<lambda>path os. (Some ''permission denied'', os))\<rparr>"

definition ex_config :: config where
  "ex_config =
     \<lparr>c_width = 960, c_frames = 20, c_quality = 100,
      c_src = ''/videos'', c_dist = [], c_bucket = ''gifs''\<rparr>"

text \<open>
  Messages for the watch loop: a creation, a write, an error, a removal, and a creation
  that comes with a chmod; and the example world with an empty record of invocations.
\<close>

definition ex_msgs :: "recv list" where
  "ex_msgs =
     [RecvEvent \<lparr>ev_Name = ''/videos/new.mp4'', ev_Op = fsnotify_Create\<rparr>,
      RecvEvent \<lparr>ev_Name = ''/videos/new.mp4'', ev_Op = fsnotify_Write\<rparr>,
      RecvError ''queue overflow'',
      RecvEvent \<lparr>ev_Name = ''/videos/old.mp4'', ev_Op = fsnotify_Remove\<rparr>,
      RecvEvent \<lparr>ev_Name = ''/videos/next.mp4'', ev_Op = fsnotify_Create OR fsnotify_Chmod\<rparr>]"

definition ex_traced_world :: traced_world where
  "ex_traced_world =
     \<lparr>w_os = ex_os, w_trace = [], invoked = []\<rparr>"

section \<open>Properties of newest-file discovery\<close>

lemmas cand_defs = candidate_def video_entry_def entry_mtime_def entry_path_def

lemma findNewestFile_loop_os [simp]:
  "w_os (snd (findNewestFile_loop e dir fs st w)) = w_os w"
proof (induction fs arbitrary: st w)
  case Nil
  then show ?case by (cases st) simp
next
  case (Cons f fs)
  then show ?case
    by (cases st) (simp add: Let_def log_Error_def emit_def split: sum.splits)
qed

lemma findNewestFile_loop_keep:
  "\<forall>f\<in>set fs. \<forall>t. candidate e (w_os w) dir f t \<longrightarrow> t \<le> nt \<Longrightarrow>
   fst (findNewestFile_loop e dir fs (nf, nt) w) = (nf, nt)"
proof (induction fs arbitrary: w)
  case Nil
  then show ?case by simp
next
  case (Cons f fs)
  have os: "w_os (log_Error a w) = w_os w" for a
    by (simp add: log_Error_def emit_def)
  from Cons.prems have rest: "\<forall>f\<in>set fs. \<forall>t. candidate e (w_os w) dir f t \<longrightarrow> t \<le> nt"
    by simp
  from Cons.prems have hd: "\<forall>t. candidate e (w_os w) dir f t \<longrightarrow> t \<le> nt"
    by simp
  show ?case
  proof (cases "e_IsVideo e (fst (os_ReadFile (w_os w) (filepath_Join [dir, fi_Name f])))")
    case False
    then show ?thesis using Cons.IH [OF rest] by simp
  next
    case True
    show ?thesis
    proof (cases "os_Stat (w_os w) (filepath_Join [dir, fi_Name f])")
      case (Inl err)
      have "fst (findNewestFile_loop e dir fs (nf, nt) (log_Error [LString err] w)) = (nf, nt)"
        by (rule Cons.IH) (simp add: os rest)
      then show ?thesis using True Inl by simp
    next
      case (Inr fi)
      with True have "candidate e (w_os w) dir f (fi_ModTime_Unix fi)"
        by (simp add: cand_defs)
      with hd have "fi_ModTime_Unix fi \<le> nt" by blast
      then show ?thesis using True Inr Cons.IH [OF rest] by simp
    qed
  qed
qed

lemma findNewestFile_loop_first_max:
  assumes "candidate e (w_os w) dir g m" and "nt < m"
    and "\<forall>h\<in>set pre. \<forall>t. candidate e (w_os w) dir h t \<longrightarrow> t < m"
    and "\<forall>h\<in>set post. \<forall>t. candidate e (w_os w) dir h t \<longrightarrow> t \<le> m"
  shows "fst (findNewestFile_loop e dir (pre @ g # post) (nf, nt) w) = (fi_Name g, m)"
  using assms
proof (induction pre arbitrary: nf nt w)
  case Nil
  from Nil.prems(1) have v: "e_IsVideo e (fst (os_ReadFile (w_os w) (filepath_Join [dir, fi_Name g])))"
    and s: "\<exists>fi. os_Stat (w_os w) (filepath_Join [dir, fi_Name g]) = Inr fi \<and> fi_ModTime_Unix fi = m"
    by (auto simp: cand_defs split: sum.splits)
  from s obtain fi where fi: "os_Stat (w_os w) (filepath_Join [dir, fi_Name g]) = Inr fi"
    "fi_ModTime_Unix fi = m" by blast
  have "fst (findNewestFile_loop e dir post (fi_Name g, m) w) = (fi_Name g, m)"
    by (rule findNewestFile_loop_keep) (use Nil.prems(4) in blast)
  then show ?case using v fi Nil.prems(2) by simp
next
  case (Cons h pre)
  have os: "w_os (log_Error a w) = w_os w" for a
    by (simp add: log_Error_def emit_def)
  from Cons.prems(3) have rest: "\<forall>h\<in>set pre. \<forall>t. candidate e (w_os w) dir h t \<longrightarrow> t < m"
    and hd: "\<forall>t. candidate e (w_os w) dir h t \<longrightarrow> t < m"
    by simp_all
  show ?case
  proof (cases "e_IsVideo e (fst (os_ReadFile (w_os w) (filepath_Join [dir, fi_Name h])))")
    case False
    then show ?thesis
      using Cons.IH [OF Cons.prems(1) Cons.prems(2) rest Cons.prems(4)] by simp
  next
    case True
    show ?thesis
    proof (cases "os_Stat (w_os w) (filepath_Join [dir, fi_Name h])")
      case (Inl err)
      have "fst (findNewestFile_loop e dir (pre @ g # post) (nf, nt) (log_Error [LString err] w))
              = (fi_Name g, m)"
        by (rule Cons.IH) (simp_all add: os Cons.prems rest)
      then show ?thesis using True Inl by simp
    next
      case (Inr fi)
      with True have "candidate e (w_os w) dir h (fi_ModTime_Unix fi)"
        by (simp add: cand_defs)
      with hd have lt: "fi_ModTime_Unix fi < m" by blast
      show ?thesis
      proof (cases "nt < fi_ModTime_Unix fi")
        case True
        have "fst (findNewestFile_loop e dir (pre @ g # post) (fi_Name h, fi_ModTime_Unix fi) w)
                = (fi_Name g, m)"
          by (rule Cons.IH [OF Cons.prems(1) lt rest Cons.prems(4)])
        then show ?thesis using True Inr \<open>e_IsVideo e _\<close> by simp
      next
        case False
        then show ?thesis
          using Inr \<open>e_IsVideo e _\<close> Cons.IH [OF Cons.prems(1) Cons.prems(2) rest Cons.prems(4)]
          by simp
      qed
    qed
  qed
qed

lemmas ex_defs = ex_world_def ex_os_def ex_env_def ex_ReadDir_def ex_files_def ex_entry_def ex_video_def

lemma Clean_not_empty: "Clean p \<noteq> []"
  by (simp add: Clean_def Let_def)

lemma filepath_Join_dir_empty: "dir \<noteq> [] \<Longrightarrow> filepath_Join [dir, []] = Clean (dir @ ''/'')"
  by (simp add: filepath_Join_def)

lemma filepath_Join_dir_not_empty: "dir \<noteq> [] \<Longrightarrow> filepath_Join [dir, []] \<noteq> []"
  by (simp add: filepath_Join_def Clean_not_empty)

lemma findNewestFile_fst:
  "fst (findNewestFile e dir w) =
     filepath_Join [dir, fst (fst (findNewestFile_loop e dir (fst (os_ReadDir (w_os w) dir)) ([], 0) w))]"
  by (simp add: findNewestFile_def Let_def split: prod.splits)

lemma findNewestFile_loop_origin:
  "fst (findNewestFile_loop e dir fs (nf, nt) w) = (nf', nt') \<Longrightarrow>
   (nf' = nf \<and> nt' = nt) \<or>
   (nt < nt' \<and> (\<exists>g\<in>set fs. candidate e (w_os w) dir g nt' \<and> fi_Name g = nf'))"
proof (induction fs arbitrary: nf nt w)
  case Nil
  then show ?case by simp
next
  case (Cons f fs)
  have os: "w_os (log_Error a w) = w_os w" for a
    by (simp add: log_Error_def emit_def)
  show ?case
  proof (cases "e_IsVideo e (fst (os_ReadFile (w_os w) (filepath_Join [dir, fi_Name f])))")
    case False
    with Cons.prems have "fst (findNewestFile_loop e dir fs (nf, nt) w) = (nf', nt')" by simp
    from Cons.IH [OF this] show ?thesis by auto
  next
    case True
    show ?thesis
    proof (cases "os_Stat (w_os w) (filepath_Join [dir, fi_Name f])")
      case (Inl err)
      with True Cons.prems
      have "fst (findNewestFile_loop e dir fs (nf, nt) (log_Error [LString err] w)) = (nf', nt')"
        by simp
      from Cons.IH [OF this] show ?thesis by (auto simp: os)
    next
      case (Inr fi)
      with True have c: "candidate e (w_os w) dir f (fi_ModTime_Unix fi)"
        by (simp add: cand_defs)
      show ?thesis
      proof (cases "nt < fi_ModTime_Unix fi")
        case lt: True
        with True Inr Cons.prems
        have "fst (findNewestFile_loop e dir fs (fi_Name f, fi_ModTime_Unix fi) w) = (nf', nt')"
          by simp
        from Cons.IH [OF this] show ?thesis using c lt by auto
      next
        case False
        with True Inr Cons.prems
        have "fst (findNewestFile_loop e dir fs (nf, nt) w) = (nf', nt')"
          by simp
        from Cons.IH [OF this] show ?thesis by auto
      qed
    qed
  qed
qed

lemma first_newest_candidate:
  assumes "f \<in> set fs" and "candidate e os dir f t"
  shows "\<exists>pre g post m. fs = pre @ g # post \<and> candidate e os dir g m \<and> t \<le> m \<and>
           (\<forall>h\<in>set pre. \<forall>t'. candidate e os dir h t' \<longrightarrow> t' < m) \<and>
           (\<forall>h\<in>set post. \<forall>t'. candidate e os dir h t' \<longrightarrow> t' \<le> m)"
proof -
  define S where "S = {t'. \<exists>h\<in>set fs. candidate e os dir h t'}"
  have "S \<subseteq> (\<lambda>h. the (entry_mtime os dir h)) ` set fs"
    by (force simp: S_def candidate_def image_iff)
  then have fin: "finite S" by (rule finite_subset) simp
  have tS: "t \<in> S" using assms by (auto simp: S_def)
  define m where "m = Max S"
  have mS: "m \<in> S" unfolding m_def using fin tS by (intro Max_in) auto
  have le: "t' \<le> m" if "t' \<in> S" for t' unfolding m_def using fin that by (rule Max_ge)
  from mS have "\<exists>h\<in>set fs. candidate e os dir h m" by (simp add: S_def)
  from split_list_first_prop [OF this]
  obtain pre g post where dec: "fs = pre @ g # post" "candidate e os dir g m"
    "\<forall>y\<in>set pre. \<not> candidate e os dir y m" by blast
  have pre: "\<forall>h\<in>set pre. \<forall>t'. candidate e os dir h t' \<longrightarrow> t' < m"
  proof (intro ballI allI impI)
    fix h t' assume h: "h \<in> set pre" "candidate e os dir h t'"
    then have "t' \<in> S" using dec(1) by (auto simp: S_def)
    then have "t' \<le> m" by (rule le)
    moreover have "t' \<noteq> m" using h dec(3) by blast
    ultimately show "t' < m" by simp
  qed
  have post: "\<forall>h\<in>set post. \<forall>t'. candidate e os dir h t' \<longrightarrow> t' \<le> m"
  proof (intro ballI allI impI)
    fix h t' assume h: "h \<in> set post" "candidate e os dir h t'"
    then have "t' \<in> S" using dec(1) by (auto simp: S_def)
    then show "t' \<le> m" by (rule le)
  qed
  show ?thesis using dec(1,2) le [OF tS] pre post by blast
qed

lemma findNewestFile_without_video:
  assumes "\<forall>f\<in>set (fst (os_ReadDir (w_os w) dir)). \<not> video_entry e (w_os w) dir f"
  shows "fst (findNewestFile e dir w) = filepath_Join [dir, []]"
proof -
  have "fst (findNewestFile_loop e dir (fst (os_ReadDir (w_os w) dir)) ([], 0) w) = ([], 0)"
    by (rule findNewestFile_loop_keep) (use assms in \<open>simp add: candidate_def\<close>)
  then show ?thesis by (simp add: findNewestFile_fst)
qed

text \<open>
  Claim C1: for a directory without video-classified entries, an empty or unreadable
  one included, \<^verbatim>\<open>findNewestFile\<close> returns the empty string. The code joins the
  directory with the empty file name, and \<^verbatim>\<open>filepath.Join\<close> drops the empty element: at
  the empty directory \<^verbatim>\<open>/empty\<close> and at the unreadable \<^verbatim>\<open>/nowhere\<close> the result is the
  directory itself, so the caller's test for the empty path does not fire.
\<close>

theorem findNewestFile_empty_listing_returns_dir:
  "os_ReadDir (w_os ex_world) ''/empty'' = ([], None) \<and>
   fst (findNewestFile ex_env ''/empty'' ex_world) = ''/empty'' \<and>
   os_ReadDir (w_os ex_world) ''/nowhere'' = ([], Some ''no such file or directory'') \<and>
   fst (findNewestFile ex_env ''/nowhere'' ex_world) = ''/nowhere''"
  by (simp add: findNewestFile_def ex_defs filepath_Join_def Clean_def Let_def)

text \<open>
  Against claim C2 as stated: the directory \<^verbatim>\<open>/epoch\<close> holds one entry, a video modified at
  second 0, and the result is the directory, not the path of that entry.
\<close>

theorem findNewestFile_epoch_video_counterexample:
  "fst (os_ReadDir (w_os ex_world) ''/epoch'') = [ex_entry ''old.mp4''] \<and>
   video_entry ex_env (w_os ex_world) ''/epoch'' (ex_entry ''old.mp4'') \<and>
   entry_path ''/epoch'' (ex_entry ''old.mp4'') = ''/epoch/old.mp4'' \<and>
   fst (findNewestFile ex_env ''/epoch'' ex_world) = ''/epoch''"
  by (simp add: findNewestFile_def ex_defs cand_defs filepath_Join_def Clean_def Let_def)

text \<open>
  Claim C2, amended: when the listing has a video-classified entry whose stat succeeds
  with a modification time after the epoch, \<^verbatim>\<open>findNewestFile\<close> returns the path under
  the directory of a video-classified entry whose modification time is maximal among
  the video-classified entries with a modification time; what is read at the returned
  path is classified as a video, so a non-video entry is never returned.
\<close>

theorem findNewestFile_newest_video:
  assumes "f \<in> set (fst (os_ReadDir (w_os w) dir))"
    and "candidate e (w_os w) dir f t" and "0 < t"
  shows "\<exists>g\<in>set (fst (os_ReadDir (w_os w) dir)). \<exists>m.
           candidate e (w_os w) dir g m \<and>
           fst (findNewestFile e dir w) = entry_path dir g \<and>
           (\<forall>h\<in>set (fst (os_ReadDir (w_os w) dir)). \<forall>t'.
              candidate e (w_os w) dir h t' \<longrightarrow> t' \<le> m) \<and>
           e_IsVideo e (fst (os_ReadFile (w_os w) (fst (findNewestFile e dir w))))"
proof -
  from first_newest_candidate [OF assms(1,2)]
  obtain pre g post m where dec: "fst (os_ReadDir (w_os w) dir) = pre @ g # post"
    and g: "candidate e (w_os w) dir g m" and tm: "t \<le> m"
    and pre: "\<forall>h\<in>set pre. \<forall>t'. candidate e (w_os w) dir h t' \<longrightarrow> t' < m"
    and post: "\<forall>h\<in>set post. \<forall>t'. candidate e (w_os w) dir h t' \<longrightarrow> t' \<le> m"
    by blast
  from assms(3) tm have "0 < m" by simp
  from findNewestFile_loop_first_max [OF g this pre post]
  have res: "fst (findNewestFile e dir w) = entry_path dir g"
    by (simp add: findNewestFile_fst dec entry_path_def)
  have mem: "g \<in> set (fst (os_ReadDir (w_os w) dir))" by (simp add: dec)
  have max: "\<forall>h\<in>set (fst (os_ReadDir (w_os w) dir)). \<forall>t'.
              candidate e (w_os w) dir h t' \<longrightarrow> t' \<le> m"
  proof (intro ballI allI impI)
    fix h t' assume h: "h \<in> set (fst (os_ReadDir (w_os w) dir))" "candidate e (w_os w) dir h t'"
    from h(1) have "h \<in> set pre \<or> h = g \<or> h \<in> set post" by (auto simp: dec)
    then show "t' \<le> m"
    proof (elim disjE)
      assume "h \<in> set pre" with pre h(2) show ?thesis by fastforce
    next
      assume "h = g" with g h(2) show ?thesis by (simp add: candidate_def)
    next
      assume "h \<in> set post" with post h(2) show ?thesis by blast
    qed
  qed
  have vid: "e_IsVideo e (fst (os_ReadFile (w_os w) (fst (findNewestFile e dir w))))"
    using g by (simp add: res candidate_def video_entry_def)
  from mem g res max vid show ?thesis by blast
qed

theorem findNewestFile_newest_video_witness:
  "ex_entry ''c.mp4'' \<in> set (fst (os_ReadDir (w_os ex_world) ''/videos'')) \<and>
   candidate ex_env (w_os ex_world) ''/videos'' (ex_entry ''c.mp4'') 20 \<and>
   e_IsVideo ex_env (fst (os_ReadFile (w_os ex_world) (fst (findNewestFile ex_env ''/videos'' ex_world))))"
proof -
  have h1: "ex_entry ''c.mp4'' \<in> set (fst (os_ReadDir (w_os ex_world) ''/videos''))"
    by (simp add: ex_defs)
  have h2: "candidate ex_env (w_os ex_world) ''/videos'' (ex_entry ''c.mp4'') 20"
    by (simp add: ex_defs cand_defs filepath_Join_def Clean_def Let_def)
  have h3: "(0::int) < 20" by simp
  from findNewestFile_newest_video [OF h1 h2 h3] h1 h2 show ?thesis by blast
qed

text \<open>
  Against claim C3 as stated: in \<^verbatim>\<open>/ties\<close> both videos were modified at second 5, and the
  result is the first of them in listing order, not the last.
\<close>

theorem findNewestFile_ties_counterexample:
  "fst (os_ReadDir (w_os ex_world) ''/ties'') = [ex_entry ''a.mp4'', ex_entry ''b.mp4''] \<and>
   candidate ex_env (w_os ex_world) ''/ties'' (ex_entry ''a.mp4'') 5 \<and>
   candidate ex_env (w_os ex_world) ''/ties'' (ex_entry ''b.mp4'') 5 \<and>
   entry_path ''/ties'' (ex_entry ''b.mp4'') = ''/ties/b.mp4'' \<and>
   fst (findNewestFile ex_env ''/ties'' ex_world) = ''/ties/a.mp4''"
  by (simp add: findNewestFile_def ex_defs cand_defs filepath_Join_def Clean_def Let_def)

text \<open>
  Claim C3, amended: ties are broken first-seen-wins. When several video-classified
  entries share the maximal modification time, and that time is after the epoch,
  \<^verbatim>\<open>findNewestFile\<close> returns the first of them in listing order: the entry \<open>g\<close> such that
  every candidate before it is strictly older and none after it is newer.
\<close>

theorem findNewestFile_first_of_ties:
  assumes "fst (os_ReadDir (w_os w) dir) = pre @ g # post"
    and "candidate e (w_os w) dir g m" and "0 < m"
    and "\<forall>h\<in>set pre. \<forall>t. candidate e (w_os w) dir h t \<longrightarrow> t < m"
    and "\<forall>h\<in>set post. \<forall>t. candidate e (w_os w) dir h t \<longrightarrow> t \<le> m"
  shows "fst (findNewestFile e dir w) = entry_path dir g"
  using findNewestFile_loop_first_max [OF assms(2-5)]
  by (simp add: findNewestFile_fst assms(1) entry_path_def)

theorem findNewestFile_first_of_ties_witness:
  "fst (findNewestFile ex_env ''/ties'' ex_world) = entry_path ''/ties'' (ex_entry ''a.mp4'')"
proof -
  have h1: "fst (os_ReadDir (w_os ex_world) ''/ties'') = [] @ ex_entry ''a.mp4'' # [ex_entry ''b.mp4'']"
    by (simp add: ex_defs)
  have h2: "candidate ex_env (w_os ex_world) ''/ties'' (ex_entry ''a.mp4'') 5"
    by (simp add: ex_defs cand_defs filepath_Join_def Clean_def Let_def)
  have h3: "(0::int) < 5" by simp
  have h4: "\<forall>h\<in>set []. \<forall>t. candidate ex_env (w_os ex_world) ''/ties'' h t \<longrightarrow> t < 5"
    by simp
  have h5: "\<forall>h\<in>set [ex_entry ''b.mp4'']. \<forall>t. candidate ex_env (w_os ex_world) ''/ties'' h t \<longrightarrow> t \<le> 5"
    by (simp add: ex_defs cand_defs filepath_Join_def Clean_def Let_def)
  show ?thesis by (rule findNewestFile_first_of_ties [OF h1 h2 h3 h4 h5])
qed

text \<open>
  Claim C10: \<^verbatim>\<open>findNewestFile\<close> never selects an entry whose modification time is at or
  before the epoch. The loop ends either in its initial state or on a candidate of the
  listing with a positive modification time; and a directory all of whose candidates
  have a modification time of at most 0 gives the result of the same directory with
  nothing classified as a video.
\<close>

theorem findNewestFile_skips_epoch_or_earlier:
  "(\<forall>nf nt. fst (findNewestFile_loop e dir (fst (os_ReadDir (w_os w) dir)) ([], 0) w) = (nf, nt) \<longrightarrow>
      (nf = [] \<and> nt = 0) \<or>
      (0 < nt \<and> (\<exists>g\<in>set (fst (os_ReadDir (w_os w) dir)).
                    candidate e (w_os w) dir g nt \<and> fi_Name g = nf))) \<and>
   ((\<forall>f\<in>set (fst (os_ReadDir (w_os w) dir)). \<forall>t. candidate e (w_os w) dir f t \<longrightarrow> t \<le> 0) \<longrightarrow>
      fst (findNewestFile e dir w) = fst (findNewestFile (e\<lparr>e_IsVideo := \<lambda>buf. False\<rparr>) dir w))"
proof (intro conjI allI impI)
  fix nf nt
  assume "fst (findNewestFile_loop e dir (fst (os_ReadDir (w_os w) dir)) ([], 0) w) = (nf, nt)"
  from findNewestFile_loop_origin [OF this]
  show "(nf = [] \<and> nt = 0) \<or>
      (0 < nt \<and> (\<exists>g\<in>set (fst (os_ReadDir (w_os w) dir)).
                    candidate e (w_os w) dir g nt \<and> fi_Name g = nf))"
    by blast
next
  assume a: "\<forall>f\<in>set (fst (os_ReadDir (w_os w) dir)). \<forall>t. candidate e (w_os w) dir f t \<longrightarrow> t \<le> 0"
  have 1: "fst (findNewestFile_loop e dir (fst (os_ReadDir (w_os w) dir)) ([], 0) w) = ([], 0)"
    by (rule findNewestFile_loop_keep [OF a])
  have 2: "fst (findNewestFile_loop (e\<lparr>e_IsVideo := \<lambda>buf. False\<rparr>) dir
             (fst (os_ReadDir (w_os w) dir)) ([], 0) w) = ([], 0)"
    by (rule findNewestFile_loop_keep) (simp add: candidate_def video_entry_def)
  show "fst (findNewestFile e dir w) = fst (findNewestFile (e\<lparr>e_IsVideo := \<lambda>buf. False\<rparr>) dir w)"
    by (simp add: findNewestFile_fst 1 2)
qed

theorem findNewestFile_skips_epoch_or_earlier_witness:
  "candidate ex_env (w_os ex_world) ''/epoch'' (ex_entry ''old.mp4'') 0 \<and>
   fst (findNewestFile ex_env ''/epoch'' ex_world) =
     fst (findNewestFile (ex_env\<lparr>e_IsVideo := \<lambda>buf. False\<rparr>) ''/epoch'' ex_world) \<and>
   fst (fst (findNewestFile_loop ex_env ''/epoch'' (fst (os_ReadDir (w_os ex_world) ''/epoch'')) ([], 0) ex_world)) = []"
proof -
  have c: "candidate ex_env (w_os ex_world) ''/epoch'' (ex_entry ''old.mp4'') 0"
    by (simp add: ex_defs cand_defs filepath_Join_def Clean_def Let_def)
  have h: "\<forall>f\<in>set (fst (os_ReadDir (w_os ex_world) ''/epoch'')). \<forall>t.
             candidate ex_env (w_os ex_world) ''/epoch'' f t \<longrightarrow> t \<le> 0"
    by (simp add: ex_defs cand_defs filepath_Join_def Clean_def Let_def)
  have l: "fst (findNewestFile_loop ex_env ''/epoch'' (fst (os_ReadDir (w_os ex_world) ''/epoch''))
             ([], 0) ex_world) = ([], 0)"
    by (simp add: ex_defs filepath_Join_def Clean_def Let_def)
  from findNewestFile_skips_epoch_or_earlier [of ex_env "''/epoch''" ex_world] c h l
  show ?thesis by simp
qed

section \<open>Properties of command execution and upload\<close>

lemma ran_cmds_append [simp]: "ran_cmds (xs @ ys) = ran_cmds xs @ ran_cmds ys"
  by (induction xs rule: ran_cmds.induct) simp_all

lemma ran_cmds_runCmd_trace [simp]: "ran_cmds (runCmd_trace args output err) = [args]"
  by (simp add: runCmd_trace_def split: option.splits)

lemma runCmd_eq:
  "runCmd e name arg w =
     w\<lparr>w_os := snd (e_CombinedOutput e (name # arg) (w_os w)),
       w_trace := w_trace w @
         runCmd_trace (name # arg) (fst (fst (e_CombinedOutput e (name # arg) (w_os w))))
           (snd (fst (e_CombinedOutput e (name # arg) (w_os w))))\<rparr>"
  by (simp add: runCmd_def runCmd_trace_def Let_def log_Debug_def log_Error_def emit_def
      printOutput_def printError_def split: prod.splits option.splits)

lemma runCmd_os [simp]:
  "w_os (runCmd e name arg w) = snd (e_CombinedOutput e (name # arg) (w_os w))"
  by (simp add: runCmd_eq)

lemma runCmd_cmds [simp]: "w_cmds (runCmd e name arg w) = w_cmds w @ [name # arg]"
  by (simp add: runCmd_eq w_cmds_def)

lemma runCmd_invoked [simp]: "invoked (runCmd e name arg w) = invoked w"
  by (simp add: runCmd_eq)

lemma clipboard_WriteAll_cmds [simp]: "w_cmds (snd (clipboard_WriteAll e s w)) = w_cmds w"
  by (simp add: clipboard_WriteAll_def Let_def emit_def w_cmds_def split: prod.splits)

lemma clipboard_WriteAll_invoked [simp]: "invoked (snd (clipboard_WriteAll e s w)) = invoked w"
  by (simp add: clipboard_WriteAll_def Let_def emit_def split: prod.splits)

lemma fmt_Println_cmds [simp]: "w_cmds (fmt_Println s w) = w_cmds w"
  by (simp add: fmt_Println_def emit_def w_cmds_def)

lemma fmt_Println_os [simp]: "w_os (fmt_Println s w) = w_os w"
  by (simp add: fmt_Println_def emit_def)

lemma fmt_Println_invoked [simp]: "invoked (fmt_Println s w) = invoked w"
  by (simp add: fmt_Println_def emit_def)

text \<open>
  Against claim C7 as stated: the uploaders discard the error of \<^verbatim>\<open>clipboard.WriteAll\<close>.
  Where the write fails, the upload to the bucket \<^verbatim>\<open>gifs\<close> ends with the clipboard
  holding what it held before, not the URL.
\<close>

theorem upload_clipboard_failure_counterexample:
  "os_clipboard (w_os ex_world) = ''old clipboard'' \<and>
   os_clipboard (w_os (uploadGCP ex_env_failing ''gifs'' ''/videos/1.gif'' ''1.gif'' ex_world)) =
     ''old clipboard''"
  by (simp add: uploadGCP_def clipboard_WriteAll_def Let_def emit_def fmt_Println_def
      ex_env_failing_def ex_env_def ex_world_def ex_os_def)

text \<open>
  Claim C7, amended: with a non-empty bucket, each uploader runs its vendor copy
  command, and after it has completed prints the public URL of the store's template,
  \<^verbatim>\<open>https://storage.googleapis.com/<bucket>/<objectKey>\<close> for GCS and
  \<^verbatim>\<open>https://<bucket>.s3.amazonaws.com/<objectKey>\<close> for S3, then writes that same URL to
  the clipboard, and does nothing else; when the write returns no error, the clipboard
  holds the URL. The error of a failed write is discarded.
\<close>

theorem upload_public_url:
  "bucket \<noteq> [] \<Longrightarrow>
   (let copy = [''gsutil'', ''cp'', videoFile, ''gs://'' @ bucket];
        url = ''https://storage.googleapis.com/'' @ bucket @ ''/'' @ objectKey;
        ((output, err), os1) = e_CombinedOutput e copy (w_os w);
        (werr, os2) = e_WriteAll e url os1;
        w' = uploadGCP e bucket videoFile objectKey w
    in w_trace w' =
         w_trace w @ runCmd_trace copy output err @ [Printed url, ClipboardWritten url werr] \<and>
       (werr = None \<longrightarrow> w_os w' = os2\<lparr>os_clipboard := url\<rparr>)) \<and>
   (let copy = [''aws'', ''s3'', ''cp'', videoFile, ''s3://'' @ bucket @ ''/'' @ objectKey,
                ''--acl'', ''public-read''];
        url = ''https://'' @ bucket @ ''.s3.amazonaws.com/'' @ objectKey;
        ((output, err), os1) = e_CombinedOutput e copy (w_os w);
        (werr, os2) = e_WriteAll e url os1;
        w' = uploadS3 e bucket videoFile objectKey w
    in w_trace w' =
         w_trace w @ runCmd_trace copy output err @ [Printed url, ClipboardWritten url werr] \<and>
       (werr = None \<longrightarrow> w_os w' = os2\<lparr>os_clipboard := url\<rparr>))"
  by (simp add: uploadGCP_def uploadS3_def runCmd_eq clipboard_WriteAll_def Let_def
      fmt_Println_def emit_def fmt_extra_def split: prod.splits)

theorem upload_public_url_witness:
  "os_clipboard (w_os (uploadGCP ex_env ''gifs'' ''/videos/1.gif'' ''1.gif'' ex_world)) =
     ''https://storage.googleapis.com/gifs/1.gif'' \<and>
   w_trace (uploadS3 ex_env ''gifs'' ''/videos/1.gif'' ''1.gif'' ex_world) =
     [Logged DEBUG [LStrings [''aws'', ''s3'', ''cp'', ''/videos/1.gif'', ''s3://gifs/1.gif'',
                              ''--acl'', ''public-read'']],
      Ran [''aws'', ''s3'', ''cp'', ''/videos/1.gif'', ''s3://gifs/1.gif'', ''--acl'', ''public-read'']
        ''failed'' (Some ''exit status 1''),
      Logged DEBUG [LString ''failed''],
      Logged ERROR [LString ''exit status 1''],
      Printed ''https://gifs.s3.amazonaws.com/1.gif'',
      ClipboardWritten ''https://gifs.s3.amazonaws.com/1.gif'' None]"
proof -
  have h: "''gifs'' \<noteq> []" by simp
  from upload_public_url [OF h, of "''/videos/1.gif''" "''1.gif''" ex_env ex_world]
  show ?thesis by (simp add: Let_def ex_world_def ex_env_def runCmd_trace_def)
qed

text \<open>
  Claim C8: with an empty bucket an uploader is a no-op: the world it returns is the
  world it was given, with no command run, nothing printed and the clipboard as it was.
\<close>

theorem upload_empty_bucket_noop:
  "uploadGCP e [] videoFile objectKey w = w \<and> uploadS3 e [] videoFile objectKey w = w"
  by (simp add: uploadGCP_def uploadS3_def)

section \<open>Properties of the conversion pipeline\<close>

lemma findNewestFile_loop_only_logs:
  "\<exists>l. snd (findNewestFile_loop e dir fs st w) = w\<lparr>w_trace := w_trace w @ l\<rparr> \<and> ran_cmds l = []"
proof (induction fs arbitrary: st w)
  case Nil
  have "w = w\<lparr>w_trace := w_trace w @ []\<rparr>" by simp
  then have "\<exists>l. w = w\<lparr>w_trace := w_trace w @ l\<rparr> \<and> ran_cmds l = []"
    by (intro exI [of _ "[]"]) simp
  then show ?case by (cases st) simp
next
  case (Cons f fs)
  obtain nf nt where st: "st = (nf, nt)" by (cases st)
  have logged: "\<exists>l. snd (findNewestFile_loop e dir fs s (log_Error a w)) = w\<lparr>w_trace := w_trace w @ l\<rparr>
                  \<and> ran_cmds l = []" for s a
  proof -
    from Cons.IH [of s "log_Error a w"] obtain l where
      l: "snd (findNewestFile_loop e dir fs s (log_Error a w)) =
            (log_Error a w)\<lparr>w_trace := w_trace (log_Error a w) @ l\<rparr>" "ran_cmds l = []"
      by blast
    have "snd (findNewestFile_loop e dir fs s (log_Error a w)) =
            w\<lparr>w_trace := w_trace w @ (Logged ERROR a # l)\<rparr>"
      unfolding l(1) by (simp add: log_Error_def emit_def)
    moreover have "ran_cmds (Logged ERROR a # l) = []" by (simp add: l(2))
    ultimately show ?thesis by blast
  qed
  from Cons.IH [of "(nf, nt)" w] Cons.IH [of "(fi_Name f, t)" w for t] logged
  show ?case
    unfolding st by (simp add: Let_def split: sum.splits)
qed

lemma findNewestFile_only_logs:
  "\<exists>l. snd (findNewestFile e dir w) = w\<lparr>w_trace := w_trace w @ l\<rparr> \<and> ran_cmds l = []"
  using findNewestFile_loop_only_logs [of e dir "fst (os_ReadDir (w_os w) dir)" "([], 0)" w]
  by (auto simp: findNewestFile_def Let_def split: prod.splits)

lemma process_selection:
  assumes "(if length args \<ge> 1 then (args ! 0, w) else findNewestFile e dir w) = (videoFile, w0)"
  shows "\<exists>l. w0 = w\<lparr>w_trace := w_trace w @ l\<rparr> \<and> ran_cmds l = []"
proof (cases "length args \<ge> 1")
  case True
  with assms have "w0 = w" by simp
  then have "w0 = w\<lparr>w_trace := w_trace w @ []\<rparr> \<and> ran_cmds [] = []" by simp
  then show ?thesis by blast
next
  case False
  with assms have "w0 = snd (findNewestFile e dir w)" by (simp add: prod_eq_iff)
  with findNewestFile_only_logs [of e dir w] show ?thesis by simp
qed

lemma process_eq:
  "process e c args w =
     (let (videoFile, w0) =
            (if length args \<ge> 1 then (args ! 0, w) else findNewestFile e (c_src c) w)
      in process_file e c videoFile w0)"
  by (simp add: process_def process_file_def)

lemma process_file_run:
  assumes "videoFile \<noteq> []" and "e_TempDir e ''/tmp'' ''pngs'' (w_os w) = Inr tmpDir"
  shows "process_file e c videoFile w =
     (let w1 = w\<lparr>w_os := (w_os w)\<lparr>os_exists := insert tmpDir (os_exists (w_os w))\<rparr>\<rparr>;
          w2 = runCmd e ''ffmpeg'' [''-i'', videoFile, filepath_Join [tmpDir, ''frame%04d.png'']] w1;
          outputFile = Sprintf ''%d.gif'' [ArgInt64 (os_now (w_os w2))];
          outfn = filepath_Join [if c_dist c = [] then c_src c else c_dist c, outputFile];
          w3 = createGif e c tmpDir outfn w2;
          w4 = uploadGCP e (c_bucket c) outfn outputFile w3
      in (Returns (), snd (os_RemoveAll e tmpDir w4)))"
  using assms
  by (simp add: process_file_def createTmpDir_def ioutil_TempDir_def Let_def del: Sprintf.simps)

lemma process_file_returns:
  assumes "process_file e c videoFile w = (Returns u, w')"
  shows "videoFile \<noteq> [] \<and> (\<exists>d. e_TempDir e ''/tmp'' ''pngs'' (w_os w) = Inr d)"
  using assms
  by (auto simp: process_file_def createTmpDir_def ioutil_TempDir_def log_Fatal_def Let_def
      split: if_splits sum.splits)

lemma os_RemoveAll_last:
  "w_trace (snd (os_RemoveAll e d w)) = w_trace w @ [Removed d (fst (os_RemoveAll e d w))]"
  by (simp add: os_RemoveAll_def Let_def emit_def split: prod.splits)

lemma os_RemoveAll_gone:
  assumes "fst (os_RemoveAll e d w) = None"
  shows "d \<notin> os_exists (w_os (snd (os_RemoveAll e d w))) \<and>
         (\<forall>p\<in>os_exists (w_os (snd (os_RemoveAll e d w))). \<not> prefix (d @ ''/'') p)"
  using assms
  by (auto simp: os_RemoveAll_def Let_def emit_def split: prod.splits)

lemma os_RemoveAll_cmds [simp]: "w_cmds (snd (os_RemoveAll e d w)) = w_cmds w"
  by (simp add: os_RemoveAll_def Let_def emit_def w_cmds_def split: prod.splits)

lemma os_RemoveAll_invoked [simp]: "invoked (snd (os_RemoveAll e d w)) = invoked w"
  by (simp add: os_RemoveAll_def Let_def emit_def split: prod.splits)

text \<open>
  Claim C5, amended: when \<^verbatim>\<open>process\<close> returns, the last thing it has done is the
  \<^verbatim>\<open>os.RemoveAll\<close> of the scratch directory that \<^verbatim>\<open>ioutil.TempDir\<close> created at its start,
  whatever the external commands printed, returned or did to the system in between;
  when that removal returned no error, the directory does not exist, and nothing below
  it does. The error of a failed removal is discarded. A return implies that the
  directory was created; the exits through \<^verbatim>\<open>log.Fatal\<close> are not returns.
\<close>

theorem process_removes_scratch_dir:
  assumes "process e c args w = (Returns u, w')"
  shows "\<exists>d err. e_TempDir e ''/tmp'' ''pngs'' (w_os w) = Inr d \<and>
                  w_trace w' \<noteq> [] \<and> last (w_trace w') = Removed d err \<and>
                  (err = None \<longrightarrow>
                     d \<notin> os_exists (w_os w') \<and>
                     (\<forall>p\<in>os_exists (w_os w'). \<not> prefix (d @ ''/'') p))"
proof -
  obtain videoFile w0 where
    sel: "(if length args \<ge> 1 then (args ! 0, w) else findNewestFile e (c_src c) w) = (videoFile, w0)"
    by (cases "if length args \<ge> 1 then (args ! 0, w) else findNewestFile e (c_src c) w")
  from process_selection [OF sel] have os: "w_os w0 = w_os w" by auto
  from assms sel have run: "process_file e c videoFile w0 = (Returns u, w')"
    by (simp add: process_eq)
  from process_file_returns [OF run] obtain d where
    vf: "videoFile \<noteq> []" and d: "e_TempDir e ''/tmp'' ''pngs'' (w_os w0) = Inr d"
    by blast
  from run process_file_run [OF vf d, of c]
  have "\<exists>w4. w' = snd (os_RemoveAll e d w4)" by (auto simp: Let_def)
  then obtain w4 where w': "w' = snd (os_RemoveAll e d w4)" ..
  have "w_trace w' \<noteq> []" "last (w_trace w') = Removed d (fst (os_RemoveAll e d w4))"
    by (simp_all add: w' os_RemoveAll_last)
  moreover have "fst (os_RemoveAll e d w4) = None \<longrightarrow>
      d \<notin> os_exists (w_os w') \<and> (\<forall>p\<in>os_exists (w_os w'). \<not> prefix (d @ ''/'') p)"
    using os_RemoveAll_gone [of e d w4] by (simp add: w')
  ultimately show ?thesis using d os by auto
qed

lemma createGif_cmds [simp]:
  "w_cmds (createGif e c tmpDir outfn w) =
     w_cmds w @ [[''/bin/sh'', ''-c'',
       Sprintf ''gifski -W %d -r %d -Q %d -o %s %s''
         [ArgInt (c_width c), ArgInt (c_frames c), ArgInt (c_quality c),
          ArgString outfn, ArgString (filepath_Join [tmpDir, ''*.png''])]]]"
  by (simp add: createGif_def Let_def del: Sprintf.simps)

lemma uploadGCP_cmds [simp]:
  "w_cmds (uploadGCP e bucket outfn outputFile w) =
     w_cmds w @ (if bucket = [] then [] else [[''gsutil'', ''cp'', outfn, ''gs://'' @ bucket]])"
  by (simp add: uploadGCP_def Let_def fmt_extra_def)

lemma process_cmds:
  assumes sel: "(if length args \<ge> 1 then (args ! 0, w) else findNewestFile e (c_src c) w)
                  = (videoFile, w0)"
    and vf: "videoFile \<noteq> []"
    and tmp: "e_TempDir e ''/tmp'' ''pngs'' (w_os w) = Inr tmpDir"
    and ff: "e_CombinedOutput e
               [''ffmpeg'', ''-i'', videoFile, filepath_Join [tmpDir, ''frame%04d.png'']]
               ((w_os w)\<lparr>os_exists := insert tmpDir (os_exists (w_os w))\<rparr>)
             = ((output, err), os2)"
    and outfn: "outfn = filepath_Join [if c_dist c = [] then c_src c else c_dist c,
                                       Sprintf ''%d.gif'' [ArgInt64 (os_now os2)]]"
  shows "fst (process e c args w) = Returns () \<and>
         w_cmds (snd (process e c args w)) =
           w_cmds w @
           [[''ffmpeg'', ''-i'', videoFile, filepath_Join [tmpDir, ''frame%04d.png'']],
            [''/bin/sh'', ''-c'',
             Sprintf ''gifski -W %d -r %d -Q %d -o %s %s''
               [ArgInt (c_width c), ArgInt (c_frames c), ArgInt (c_quality c),
                ArgString outfn, ArgString (filepath_Join [tmpDir, ''*.png''])]]] @
           (if c_bucket c = [] then [] else [[''gsutil'', ''cp'', outfn, ''gs://'' @ c_bucket c]])"
proof -
  from process_selection [OF sel] obtain l where
    w0: "w0 = w\<lparr>w_trace := w_trace w @ l\<rparr>" and l: "ran_cmds l = []" by blast
  have tmp0: "e_TempDir e ''/tmp'' ''pngs'' (w_os w0) = Inr tmpDir"
    using tmp by (simp add: w0)
  have c0: "w_cmds (w\<lparr>w_trace := w_trace w @ l, w_os := os\<rparr>) = w_cmds w" for os
    by (simp add: w_cmds_def l)
  have p: "process e c args w = process_file e c videoFile w0"
    using sel by (simp add: process_eq)
  show ?thesis
    unfolding p process_file_run [OF vf tmp0] outfn
    using ff by (simp add: Let_def c0 w0 del: Sprintf.simps)
qed

text \<open>
  Claim C9: whatever the frame-extraction command prints, returns or does to the system
  (\<open>output\<close>, \<open>err\<close> and \<open>os2\<close> are arbitrary), the pipeline does not abort: once the input
  path is non-empty and the scratch directory exists, \<^verbatim>\<open>process\<close> returns and has run,
  in this order, the extraction, the encoder and, when a bucket is configured, the copy
  to the bucket. The clock is read after the extraction.
\<close>

theorem process_continues_after_extraction:
  assumes "(if length args \<ge> 1 then (args ! 0, w) else findNewestFile e (c_src c) w)
             = (videoFile, w0)"
    and "videoFile \<noteq> []"
    and "e_TempDir e ''/tmp'' ''pngs'' (w_os w) = Inr tmpDir"
    and "e_CombinedOutput e
           [''ffmpeg'', ''-i'', videoFile, filepath_Join [tmpDir, ''frame%04d.png'']]
           ((w_os w)\<lparr>os_exists := insert tmpDir (os_exists (w_os w))\<rparr>)
         = ((output, err), os2)"
  shows "fst (process e c args w) = Returns () \<and>
         w_cmds (snd (process e c args w)) =
           w_cmds w @
           [[''ffmpeg'', ''-i'', videoFile, filepath_Join [tmpDir, ''frame%04d.png'']],
            [''/bin/sh'', ''-c'',
             Sprintf ''gifski -W %d -r %d -Q %d -o %s %s''
               [ArgInt (c_width c), ArgInt (c_frames c), ArgInt (c_quality c),
                ArgString (filepath_Join [if c_dist c = [] then c_src c else c_dist c,
                                          Sprintf ''%d.gif'' [ArgInt64 (os_now os2)]]),
                ArgString (filepath_Join [tmpDir, ''*.png''])]]] @
           (if c_bucket c = [] then []
            else [[''gsutil'', ''cp'',
                   filepath_Join [if c_dist c = [] then c_src c else c_dist c,
                                  Sprintf ''%d.gif'' [ArgInt64 (os_now os2)]],
                   ''gs://'' @ c_bucket c]])"
  by (rule process_cmds [OF assms refl])

lemma ex_selection:
  "(if length ([]::string list) \<ge> 1 then ([] ! 0, ex_world)
    else findNewestFile e (c_src ex_config) ex_world)
   = (fst (findNewestFile e ''/videos'' ex_world), snd (findNewestFile e ''/videos'' ex_world))"
  by (simp add: ex_config_def)

lemma ex_found: "fst (findNewestFile ex_env ''/videos'' ex_world) = ''/videos/c.mp4''"
  by (simp add: findNewestFile_fst ex_defs filepath_Join_def Clean_def Let_def)

lemma ex_found_failing: "fst (findNewestFile ex_env_failing ''/videos'' ex_world) = ''/videos/c.mp4''"
  by (simp add: findNewestFile_fst ex_defs ex_env_failing_def filepath_Join_def Clean_def Let_def)

theorem process_continues_after_extraction_witness:
  "fst (process ex_env ex_config [] ex_world) = Returns () \<and>
   w_cmds (snd (process ex_env ex_config [] ex_world)) =
     [[''ffmpeg'', ''-i'', ''/videos/c.mp4'', ''/tmp/pngs123/frame%04d.png''],
      [''/bin/sh'', ''-c'',
       ''gifski -W 960 -r 20 -Q 100 -o /videos/1700000001.gif /tmp/pngs123/*.png''],
      [''gsutil'', ''cp'', ''/videos/1700000001.gif'', ''gs://gifs'']]"
proof -
  have sel: "(if length ([]::string list) \<ge> 1 then ([] ! 0, ex_world)
              else findNewestFile ex_env (c_src ex_config) ex_world)
             = (''/videos/c.mp4'', snd (findNewestFile ex_env ''/videos'' ex_world))"
    by (simp only: ex_selection ex_found)
  have vf: "''/videos/c.mp4'' \<noteq> []" by simp
  have tmp: "e_TempDir ex_env ''/tmp'' ''pngs'' (w_os ex_world) = Inr ''/tmp/pngs123''"
    by (simp add: ex_env_def)
  have ff: "e_CombinedOutput ex_env
               [''ffmpeg'', ''-i'', ''/videos/c.mp4'', filepath_Join [''/tmp/pngs123'', ''frame%04d.png'']]
               ((w_os ex_world)\<lparr>os_exists := insert ''/tmp/pngs123'' (os_exists (w_os ex_world))\<rparr>)
             = ((''failed'', Some ''exit status 1''),
                (w_os ex_world)\<lparr>os_exists := insert ''/tmp/pngs123'' (os_exists (w_os ex_world)),
                                os_now := 1700000001\<rparr>)"
    by (simp add: ex_env_def ex_world_def ex_os_def)
  from process_continues_after_extraction [OF sel vf tmp ff]
  show ?thesis
    by (simp add: ex_config_def ex_world_def w_cmds_def
        filepath_Join_def Clean_def fmt_extra_def itoa_def nat_digits.simps digit_char_def Let_def)
qed

lemma process_file_last:
  assumes "videoFile \<noteq> []" and "e_TempDir e ''/tmp'' ''pngs'' (w_os w) = Inr tmpDir"
  shows "\<exists>os. last (w_trace (snd (process_file e c videoFile w))) =
                Removed tmpDir (fst (e_RemoveAll e tmpDir os))"
proof -
  have f: "fst (os_RemoveAll e d w4) = fst (e_RemoveAll e d (w_os w4))" for d w4
    by (simp add: os_RemoveAll_def Let_def split: prod.splits)
  show ?thesis
    unfolding process_file_run [OF assms]
    by (auto simp: Let_def os_RemoveAll_last f simp del: Sprintf.simps)
qed

lemma ex_process_returns:
  assumes "\<And>os. e_TempDir e ''/tmp'' ''pngs'' os = Inr ''/tmp/pngs123''"
    and "fst (findNewestFile e ''/videos'' ex_world) = ''/videos/c.mp4''"
  shows "fst (process e ex_config [] ex_world) = Returns ()"
proof -
  have p: "process e ex_config [] ex_world =
             process_file e ex_config ''/videos/c.mp4'' (snd (findNewestFile e ''/videos'' ex_world))"
    by (cases "findNewestFile e ''/videos'' ex_world")
      (use assms(2) in \<open>simp add: process_eq ex_config_def\<close>)
  have tmp0: "e_TempDir e ''/tmp'' ''pngs'' (w_os (snd (findNewestFile e ''/videos'' ex_world)))
                = Inr ''/tmp/pngs123''"
    by (simp add: assms(1))
  show ?thesis
    unfolding p by (subst process_file_run [OF _ tmp0]) (simp_all add: Let_def del: Sprintf.simps)
qed

text \<open>
  In the example every command fails, the removal succeeds, and the scratch directory is
  gone.
\<close>

theorem process_removes_scratch_dir_witness:
  "fst (process ex_env ex_config [] ex_world) = Returns () \<and>
   e_TempDir ex_env ''/tmp'' ''pngs'' (w_os ex_world) = Inr ''/tmp/pngs123'' \<and>
   last (w_trace (snd (process ex_env ex_config [] ex_world))) = Removed ''/tmp/pngs123'' None \<and>
   ''/tmp/pngs123'' \<notin> os_exists (w_os (snd (process ex_env ex_config [] ex_world)))"
proof -
  have t: "e_TempDir ex_env ''/tmp'' ''pngs'' os = Inr ''/tmp/pngs123''" for os
    by (simp add: ex_env_def)
  have r: "fst (process ex_env ex_config [] ex_world) = Returns ()"
    by (rule ex_process_returns [OF t ex_found])
  then have h: "process ex_env ex_config [] ex_world =
                  (Returns (), snd (process ex_env ex_config [] ex_world))"
    by (simp add: prod_eq_iff)
  have none: "fst (e_RemoveAll ex_env d os) = None" for d os
    by (simp add: ex_env_def)
  have p: "process ex_env ex_config [] ex_world =
             process_file ex_env ex_config ''/videos/c.mp4''
               (snd (findNewestFile ex_env ''/videos'' ex_world))"
    by (cases "findNewestFile ex_env ''/videos'' ex_world")
      (use ex_found in \<open>simp add: process_eq ex_config_def\<close>)
  have l: "last (w_trace (snd (process ex_env ex_config [] ex_world))) =
             Removed ''/tmp/pngs123'' None"
    using process_file_last [OF _ t, of "''/videos/c.mp4''" ex_config
        "snd (findNewestFile ex_env ''/videos'' ex_world)"]
    by (simp add: p none)
  from process_removes_scratch_dir [OF h] l t r show ?thesis by auto
qed

text \<open>
  Against claim C5 as stated: \<^verbatim>\<open>process\<close> discards the error of the deferred
  \<^verbatim>\<open>os.RemoveAll\<close>. Where the removal fails, \<^verbatim>\<open>process\<close> returns and the scratch directory
  it created, \<^verbatim>\<open>/tmp/pngs123\<close>, still exists.
\<close>

theorem process_failed_removal_counterexample:
  "fst (process ex_env_failing ex_config [] ex_world) = Returns () \<and>
   e_TempDir ex_env_failing ''/tmp'' ''pngs'' (w_os ex_world) = Inr ''/tmp/pngs123'' \<and>
   ''/tmp/pngs123'' \<in> os_exists (w_os (snd (process ex_env_failing ex_config [] ex_world)))"
proof -
  have t: "e_TempDir ex_env_failing ''/tmp'' ''pngs'' os = Inr ''/tmp/pngs123''" for os
    by (simp add: ex_env_failing_def ex_env_def)
  have r: "fst (process ex_env_failing ex_config [] ex_world) = Returns ()"
    by (rule ex_process_returns [OF t ex_found_failing])
  have p: "process ex_env_failing ex_config [] ex_world =
             process_file ex_env_failing ex_config ''/videos/c.mp4''
               (snd (findNewestFile ex_env_failing ''/videos'' ex_world))"
    by (cases "findNewestFile ex_env_failing ''/videos'' ex_world")
      (use ex_found_failing in \<open>simp add: process_eq ex_config_def\<close>)
  have os: "w_os (snd (findNewestFile ex_env_failing ''/videos'' ex_world)) = ex_os"
    using findNewestFile_only_logs [of ex_env_failing "''/videos''" ex_world]
    by (auto simp: ex_world_def)
  have "''/tmp/pngs123'' \<in>
          os_exists (w_os (snd (process ex_env_failing ex_config [] ex_world)))"
    unfolding p
    by (subst process_file_run [OF _ t])
      (simp_all add: Let_def os createGif_def uploadGCP_def clipboard_WriteAll_def
        os_RemoveAll_def emit_def ex_env_failing_def ex_env_def ex_config_def
        split: prod.splits del: Sprintf.simps)
  with r t show ?thesis by simp
qed

section \<open>Properties of paths and of the output path\<close>

lemma path_elems_not_empty [simp]: "path_elems p \<noteq> []"
  by (induction p) (auto split: list.splits)

lemma path_elems_append_sep:
  "path_elems (a @ CHR ''/'' # b) = path_elems a @ path_elems b"
  by (induction a) (auto split: list.splits)

lemma path_elems_no_sep: "CHR ''/'' \<notin> set f \<Longrightarrow> path_elems f = [f]"
  by (induction f) (auto split: list.splits)

lemma path_elems_sep_free: "e \<in> set (path_elems p) \<Longrightarrow> CHR ''/'' \<notin> set e"
  by (induction p arbitrary: e) (auto split: list.splits if_splits)

lemma clean_elems_append:
  "clean_elems r (xs @ ys) out = clean_elems r ys (clean_elems r xs out)"
  by (induction xs arbitrary: out) auto

lemma clean_elems_plain:
  "\<forall>e\<in>set out. plain_elem e \<Longrightarrow> \<forall>e\<in>set xs. CHR ''/'' \<notin> set e \<Longrightarrow>
   \<forall>e\<in>set (clean_elems r xs out). plain_elem e"
proof (induction xs arbitrary: out)
  case Nil
  then show ?case by simp
next
  case (Cons x xs)
  have b: "\<forall>e\<in>set (butlast out). plain_elem e"
    using Cons.prems(1) by (auto dest: in_set_butlastD)
  have d: "\<forall>e\<in>set (out @ [''..'']). plain_elem e"
    using Cons.prems(1) by (simp add: plain_elem_def)
  have x: "x \<noteq> [] \<Longrightarrow> x \<noteq> ''.'' \<Longrightarrow> \<forall>e\<in>set (out @ [x]). plain_elem e"
    using Cons.prems by (simp add: plain_elem_def)
  from Cons.prems(2) have rest: "\<forall>e\<in>set xs. CHR ''/'' \<notin> set e" by simp
  show ?case
    using Cons.IH [OF Cons.prems(1) rest] Cons.IH [OF b rest]
      Cons.IH [OF d rest] Cons.IH [OF x rest]
    by simp
qed

lemma strings_Join_snoc:
  "strings_Join (out @ [f]) sep = (if out = [] then f else strings_Join out sep @ sep @ f)"
  by (induction out sep rule: strings_Join.induct) simp_all

lemma strings_Join_plain:
  assumes "out \<noteq> []" and "\<forall>e\<in>set out. plain_elem e"
  shows "strings_Join out ''/'' \<noteq> [] \<and> hd (strings_Join out ''/'') \<noteq> CHR ''/'' \<and>
         strings_Join out ''/'' \<noteq> ''.''"
proof (cases out)
  case Nil
  with assms show ?thesis by simp
next
  case (Cons x ys)
  with assms(2) have x: "x \<noteq> []" "x \<noteq> ''.''" "CHR ''/'' \<notin> set x"
    by (auto simp: plain_elem_def)
  from x(1) have "hd x \<in> set x" by simp
  with x(3) have h: "hd x \<noteq> CHR ''/''" by metis
  show ?thesis
  proof (cases ys)
    case Nil
    with Cons x h show ?thesis by simp
  next
    case (Cons y zs)
    with \<open>out = x # ys\<close> x h show ?thesis
      by (cases x) auto
  qed
qed

lemma Clean_under:
  assumes d: "d \<noteq> []" and f: "plain_elem f" "f \<noteq> ''..''"
  shows "Clean (d @ CHR ''/'' # f) = directly_under d f"
proof -
  define r where "r = (hd d = CHR ''/'')"
  define out where "out = clean_elems r (path_elems d) []"
  have pl: "\<forall>e\<in>set out. plain_elem e"
    unfolding out_def by (rule clean_elems_plain) (auto dest: path_elems_sep_free)
  from f have fne: "f \<noteq> []" "f \<noteq> ''.''" "CHR ''/'' \<notin> set f"
    by (simp_all add: plain_elem_def)
  have elems: "path_elems (d @ CHR ''/'' # f) = path_elems d @ [f]"
    using fne by (simp add: path_elems_append_sep path_elems_no_sep)
  have one: "clean_elems r [f] out = out @ [f]"
    using fne f(2) by simp
  have out': "clean_elems r (path_elems (d @ CHR ''/'' # f)) [] = out @ [f]"
    unfolding elems clean_elems_append out_def [symmetric] by (rule one)
  have hd': "(hd (d @ CHR ''/'' # f) = CHR ''/'') = r"
    using d by (simp add: r_def)
  have lhs: "Clean (d @ CHR ''/'' # f) =
               (if r then ''/'' else []) @ strings_Join (out @ [f]) ''/''"
    unfolding Clean_def Let_def hd' out'
    using fne by (simp add: strings_Join_snoc)
  have cd: "Clean d = (if (if r then ''/'' else []) @ strings_Join out ''/'' = [] then ''.''
                       else (if r then ''/'' else []) @ strings_Join out ''/'')"
    using d by (simp add: Clean_def Let_def r_def out_def)
  show ?thesis
  proof (cases "out = []")
    case True
    then show ?thesis by (simp add: lhs cd directly_under_def)
  next
    case False
    from strings_Join_plain [OF False pl]
    have j: "strings_Join out ''/'' \<noteq> []" "hd (strings_Join out ''/'') \<noteq> CHR ''/''"
      "strings_Join out ''/'' \<noteq> ''.''" by simp_all
    from j(1,2) have j2: "strings_Join out ''/'' \<noteq> ''/''" by auto
    show ?thesis
      using False j j2 by (simp add: lhs cd directly_under_def strings_Join_snoc)
  qed
qed

lemma Clean_plain:
  assumes "plain_elem f" "f \<noteq> ''..''"
  shows "Clean f = f"
proof -
  from assms have fne: "f \<noteq> []" "f \<noteq> ''.''" "CHR ''/'' \<notin> set f"
    by (simp_all add: plain_elem_def)
  from fne(1) have "hd f \<in> set f" by simp
  with fne(3) have "hd f \<noteq> CHR ''/''" by metis
  then show ?thesis
    using fne assms(2) by (simp add: Clean_def Let_def path_elems_no_sep)
qed

lemma filepath_Join_under:
  assumes "plain_elem f" "f \<noteq> ''..''"
  shows "filepath_Join [d, f] = directly_under d f"
proof (cases "d = []")
  case True
  from assms have "f \<noteq> []" by (simp add: plain_elem_def)
  then show ?thesis
    using True Clean_plain [OF assms]
    by (simp add: filepath_Join_def directly_under_def Clean_def)
next
  case False
  then show ?thesis
    using Clean_under [OF False assms] by (simp add: filepath_Join_def)
qed

lemma digit_char_digit: "d < 10 \<Longrightarrow> digit_char d \<in> set ''0123456789''"
  unfolding digit_char_def by (rule nth_mem) simp

lemma nat_digits_digits: "set (nat_digits n) \<subseteq> set ''0123456789''"
proof (induction n rule: nat_digits.induct)
  case (1 n)
  show ?case
  proof (cases "n < 10")
    case True
    then show ?thesis
      using digit_char_digit [of n] by (subst nat_digits.simps) simp
  next
    case False
    have "n mod 10 < 10" by simp
    from digit_char_digit [OF this] "1.IH" [OF False] False
    show ?thesis by (subst nat_digits.simps) simp
  qed
qed

lemma itoa_sep_free: "CHR ''/'' \<notin> set (itoa t)"
  using nat_digits_digits [of "nat t"] nat_digits_digits [of "nat (- t)"]
  by (auto simp: itoa_def)

lemma outputFile_eq: "Sprintf ''%d.gif'' [ArgInt64 t] = itoa t @ ''.gif''"
  by (simp add: fmt_extra_def)

lemma outputFile_plain:
  "plain_elem (itoa t @ ''.gif'') \<and> itoa t @ ''.gif'' \<noteq> ''..''"
proof -
  have "last (itoa t @ ''.gif'') = CHR ''f''" by simp
  then have "itoa t @ ''.gif'' \<noteq> ''.''" "itoa t @ ''.gif'' \<noteq> ''..''"
    by auto
  then show ?thesis
    using itoa_sep_free [of t] by (simp add: plain_elem_def)
qed

lemma outfn_under:
  "filepath_Join [d, Sprintf ''%d.gif'' [ArgInt64 t]] = directly_under d (itoa t @ ''.gif'')"
  unfolding outputFile_eq using outputFile_plain [of t] by (simp add: filepath_Join_under)

text \<open>
  Claim C4: the output path of the pipeline, which is what the encoder is told to write
  and what is copied to the bucket, is the file directly under the configured \<^verbatim>\<open>dist\<close>
  directory when \<^verbatim>\<open>dist\<close> is non-empty, and directly under the \<^verbatim>\<open>src\<close> directory when
  \<^verbatim>\<open>dist\<close> is empty; the file name is the clock reading in whole seconds, taken after the
  extraction, in decimal, with the extension \<^verbatim>\<open>.gif\<close>.
\<close>

theorem process_output_under_dist_or_src:
  assumes "(if length args \<ge> 1 then (args ! 0, w) else findNewestFile e (c_src c) w)
             = (videoFile, w0)"
    and "videoFile \<noteq> []"
    and "e_TempDir e ''/tmp'' ''pngs'' (w_os w) = Inr tmpDir"
    and "e_CombinedOutput e
           [''ffmpeg'', ''-i'', videoFile, filepath_Join [tmpDir, ''frame%04d.png'']]
           ((w_os w)\<lparr>os_exists := insert tmpDir (os_exists (w_os w))\<rparr>)
         = ((output, err), os2)"
  shows "let outfn = directly_under (if c_dist c = [] then c_src c else c_dist c)
                       (itoa (os_now os2) @ ''.gif'')
         in w_cmds (snd (process e c args w)) =
              w_cmds w @
              [[''ffmpeg'', ''-i'', videoFile, filepath_Join [tmpDir, ''frame%04d.png'']],
               [''/bin/sh'', ''-c'',
                Sprintf ''gifski -W %d -r %d -Q %d -o %s %s''
                  [ArgInt (c_width c), ArgInt (c_frames c), ArgInt (c_quality c),
                   ArgString outfn, ArgString (filepath_Join [tmpDir, ''*.png''])]]] @
              (if c_bucket c = [] then []
               else [[''gsutil'', ''cp'', outfn, ''gs://'' @ c_bucket c]])"
  unfolding Let_def
  by (rule process_cmds [OF assms outfn_under [symmetric], THEN conjunct2])

theorem process_output_under_dist_or_src_witness:
  "w_cmds (snd (process ex_env (ex_config\<lparr>c_dist := ''/gifs/''\<rparr>) [] ex_world)) =
     [[''ffmpeg'', ''-i'', ''/videos/c.mp4'', ''/tmp/pngs123/frame%04d.png''],
      [''/bin/sh'', ''-c'',
       ''gifski -W 960 -r 20 -Q 100 -o /gifs/1700000001.gif /tmp/pngs123/*.png''],
      [''gsutil'', ''cp'', ''/gifs/1700000001.gif'', ''gs://gifs'']]"
proof -
  have sel: "(if length ([]::string list) \<ge> 1 then ([] ! 0, ex_world)
              else findNewestFile ex_env (c_src (ex_config\<lparr>c_dist := ''/gifs/''\<rparr>)) ex_world)
             = (''/videos/c.mp4'', snd (findNewestFile ex_env ''/videos'' ex_world))"
    using ex_found by (simp add: ex_config_def prod_eq_iff)
  have vf: "''/videos/c.mp4'' \<noteq> []" by simp
  have tmp: "e_TempDir ex_env ''/tmp'' ''pngs'' (w_os ex_world) = Inr ''/tmp/pngs123''"
    by (simp add: ex_env_def)
  have ff: "e_CombinedOutput ex_env
               [''ffmpeg'', ''-i'', ''/videos/c.mp4'', filepath_Join [''/tmp/pngs123'', ''frame%04d.png'']]
               ((w_os ex_world)\<lparr>os_exists := insert ''/tmp/pngs123'' (os_exists (w_os ex_world))\<rparr>)
             = ((''failed'', Some ''exit status 1''),
                (w_os ex_world)\<lparr>os_exists := insert ''/tmp/pngs123'' (os_exists (w_os ex_world)),
                                os_now := 1700000001\<rparr>)"
    by (simp add: ex_env_def ex_world_def ex_os_def)
  from process_output_under_dist_or_src [OF sel vf tmp ff]
  show ?thesis
    by (simp add: ex_config_def ex_world_def w_cmds_def directly_under_def
        filepath_Join_def Clean_def fmt_extra_def itoa_def nat_digits.simps digit_char_def Let_def)
qed

section \<open>Properties of the watch loop\<close>

lemma create_test:
  "(op AND fsnotify_Create = fsnotify_Create) = op_includes op fsnotify_Create"
  by (auto simp: op_includes_def fsnotify_Create_def and_one_eq)

lemma other_kinds_exclude_create:
  assumes "op AND (fsnotify_Write OR fsnotify_Remove OR fsnotify_Rename OR fsnotify_Chmod) = op"
  shows "\<not> op_includes op fsnotify_Create"
proof -
  have "(fsnotify_Write OR fsnotify_Remove OR fsnotify_Rename OR fsnotify_Chmod) AND fsnotify_Create = 0"
    by (simp add: fsnotify_Write_def fsnotify_Remove_def fsnotify_Rename_def
        fsnotify_Chmod_def fsnotify_Create_def)
  then have "(op AND (fsnotify_Write OR fsnotify_Remove OR fsnotify_Rename OR fsnotify_Chmod))
               AND fsnotify_Create = 0"
    by (simp add: and.assoc)
  then have "op AND fsnotify_Create = 0" by (simp only: assms)
  then show ?thesis by (simp add: op_includes_def)
qed

lemma received_events_simps [simp]:
  "received_events [] = []"
  "received_events (RecvEvent ev # ms) = ev # received_events ms"
  "received_events (RecvError err # ms) = received_events ms"
  "received_events (EventsClosed # ms) = received_events ms"
  "received_events (ErrorsClosed # ms) = received_events ms"
  by (simp_all add: received_events_def)

lemma log_Debug_invoked [simp]: "invoked (log_Debug a w) = invoked w"
  by (simp add: log_Debug_def emit_def)

lemma watch_trace_ok_skip:
  assumes "watch_trace_ok ms w1 st w' n" and "invoked w1 = invoked w"
    and "received_events [m] = []"
  shows "watch_trace_ok (m # ms) w st w' (Suc n)"
proof -
  from assms(3) have r: "received_events (m # xs) = received_events xs" for xs
    by (cases m) (simp_all add: received_events_def)
  from assms(1,2) show ?thesis
    unfolding watch_trace_ok_def
    by (auto simp: r nth_Cons split: nat.splits)
qed

lemma watch_trace_ok_event:
  assumes "watch_trace_ok ms w1 st w' n"
    and "invoked w1 = invoked w @ (if op_includes (ev_Op ev) fsnotify_Create then [ev_Name ev] else [])"
  shows "watch_trace_ok (RecvEvent ev # ms) w st w' (Suc n)"
  using assms unfolding watch_trace_ok_def
  by (auto simp: nth_Cons split: nat.splits)

lemma watch_loop_trace:
  assumes pres: "\<And>name w. invoked (snd (proc name w)) = invoked w"
  shows "watch_loop (traced proc) msgs w = (st, w') \<Longrightarrow> \<exists>n. watch_trace_ok msgs w st w' n"
proof (induction msgs arbitrary: w)
  case Nil
  then show ?case by (auto simp: watch_trace_ok_def)
next
  case (Cons m ms)
  show ?case
  proof (cases m)
    case EventsClosed
    with Cons.prems have "watch_trace_ok (m # ms) w st w' 0"
      by (auto simp: watch_trace_ok_def)
    then show ?thesis ..
  next
    case ErrorsClosed
    with Cons.prems have "watch_trace_ok (m # ms) w st w' 0"
      by (auto simp: watch_trace_ok_def)
    then show ?thesis ..
  next
    case (RecvError err)
    with Cons.prems
    have "watch_loop (traced proc) ms (log_Debug [LString ''error:'', LError err] w) = (st, w')"
      by simp
    from Cons.IH [OF this] obtain n where
      "watch_trace_ok ms (log_Debug [LString ''error:'', LError err] w) st w' n" ..
    then have "watch_trace_ok (m # ms) w st w' (Suc n)"
      by (rule watch_trace_ok_skip) (simp_all add: RecvError)
    then show ?thesis ..
  next
    case (RecvEvent ev)
    define w1 where "w1 = log_Debug [LString ''event:'', LEvent (ev_Name ev) (ev_Op ev)] w"
    define w2 where "w2 = log_Debug [LString ''modified file:'', LString (ev_Name ev)] w1"
    have i1: "invoked w1 = invoked w" by (simp add: w1_def)
    show ?thesis
    proof (cases "op_includes (ev_Op ev) fsnotify_Create")
      case False
      with Cons.prems RecvEvent have "watch_loop (traced proc) ms w1 = (st, w')"
        by (simp add: create_test w1_def Let_def)
      from Cons.IH [OF this] obtain n where "watch_trace_ok ms w1 st w' n" ..
      then have "watch_trace_ok (RecvEvent ev # ms) w st w' (Suc n)"
        by (rule watch_trace_ok_event) (simp add: i1 False)
      then show ?thesis unfolding RecvEvent ..
    next
      case True
      obtain r w3 where p: "traced proc (ev_Name ev) w2 = (r, w3)"
        by (cases "traced proc (ev_Name ev) w2")
      have i3: "invoked w3 = invoked w @ [ev_Name ev]"
        using p pres [of "ev_Name ev" "w2\<lparr>invoked := invoked w2 @ [ev_Name ev]\<rparr>"]
        by (simp add: traced_def w2_def i1)
      show ?thesis
      proof (cases r)
        case Exits
        with Cons.prems RecvEvent True p have "st = ProcessExited" "w' = w3"
          by (simp_all add: create_test w1_def w2_def Let_def)
        with i3 True have "watch_trace_ok (m # ms) w st w' 1"
          by (simp add: watch_trace_ok_def RecvEvent)
        then show ?thesis ..
      next
        case (Returns u)
        with Cons.prems RecvEvent True p have "watch_loop (traced proc) ms w3 = (st, w')"
          by (simp add: create_test w1_def w2_def Let_def)
        from Cons.IH [OF this] obtain n where "watch_trace_ok ms w3 st w' n" ..
        then have "watch_trace_ok (RecvEvent ev # ms) w st w' (Suc n)"
          by (rule watch_trace_ok_event) (simp add: i3 True)
        then show ?thesis unfolding RecvEvent ..
      qed
    qed
  qed
qed


lemma createGif_invoked [simp]: "invoked (createGif e c tmpDir outfn w) = invoked w"
  by (simp add: createGif_def Let_def del: Sprintf.simps)

lemma uploadGCP_invoked [simp]: "invoked (uploadGCP e bucket outfn outputFile w) = invoked w"
  by (simp add: uploadGCP_def Let_def del: Sprintf.simps)

lemma process_file_invoked: "invoked (snd (process_file e c name w)) = invoked w"
  by (simp add: process_file_def createTmpDir_def ioutil_TempDir_def log_Fatal_def emit_def
      Let_def split: sum.splits del: Sprintf.simps)

lemma watch_loop_blocks:
  assumes "\<forall>m\<in>set msgs. m \<noteq> EventsClosed \<and> m \<noteq> ErrorsClosed \<and>
             (\<forall>ev. m = RecvEvent ev \<longrightarrow> (\<forall>w. fst (proc (ev_Name ev) w) = Returns ()))"
  shows "fst (watch_loop proc msgs w) = Blocked"
  using assms
proof (induction msgs arbitrary: w)
  case Nil
  then show ?case by simp
next
  case (Cons m ms)
  have no_exit: "proc (ev_Name ev) w0 \<noteq> (Exits, w3)"
    if "\<forall>w. fst (proc (ev_Name ev) w) = Returns ()" for ev w0 w3
    using that by (metis fst_conv outcome.distinct(1))
  from Cons show ?case
    by (cases m) (auto simp: Let_def no_exit split: prod.splits outcome.splits)
qed

text \<open>
  Claim C6: in watch mode an event whose operation does not include creation triggers
  no pipeline invocation, and every event whose operation includes creation triggers
  exactly one, on the event's path. For every pipeline that records its invocations in a
  field it otherwise leaves alone: after the loop has run on the messages received, the
  record has grown by exactly the paths of the creation events among the messages
  taken, in order; a loop that blocks has taken all of them. An operation made of write,
  remove, rename and chmod bits only does not include creation.
\<close>

theorem watch_dispatches_creations_only:
  assumes "\<And>name w. invoked (snd (proc name w)) = invoked w"
    and "watch_loop (traced proc) msgs w = (st, w')"
  shows "(\<exists>n\<le>length msgs.
            invoked w' = invoked w @
              map ev_Name (filter (\<lambda>ev. op_includes (ev_Op ev) fsnotify_Create)
                             (received_events (take n msgs))) \<and>
            (st = Blocked \<longrightarrow> n = length msgs) \<and>
            (st = LoopReturned \<longrightarrow>
               n < length msgs \<and> (msgs ! n = EventsClosed \<or> msgs ! n = ErrorsClosed)) \<and>
            (st = ProcessExited \<longrightarrow>
               0 < n \<and> (\<exists>ev. msgs ! (n - 1) = RecvEvent ev \<and>
                              op_includes (ev_Op ev) fsnotify_Create))) \<and>
         (\<forall>op. op AND (fsnotify_Write OR fsnotify_Remove OR fsnotify_Rename OR fsnotify_Chmod) = op
                \<longrightarrow> \<not> op_includes op fsnotify_Create)"
proof
  from watch_loop_trace [of proc, OF assms] obtain n where "watch_trace_ok msgs w st w' n" ..
  then show "\<exists>n\<le>length msgs.
            invoked w' = invoked w @
              map ev_Name (filter (\<lambda>ev. op_includes (ev_Op ev) fsnotify_Create)
                             (received_events (take n msgs))) \<and>
            (st = Blocked \<longrightarrow> n = length msgs) \<and>
            (st = LoopReturned \<longrightarrow>
               n < length msgs \<and> (msgs ! n = EventsClosed \<or> msgs ! n = ErrorsClosed)) \<and>
            (st = ProcessExited \<longrightarrow>
               0 < n \<and> (\<exists>ev. msgs ! (n - 1) = RecvEvent ev \<and>
                              op_includes (ev_Op ev) fsnotify_Create))"
    unfolding watch_trace_ok_def by blast
next
  show "\<forall>op. op AND (fsnotify_Write OR fsnotify_Remove OR fsnotify_Rename OR fsnotify_Chmod) = op
                \<longrightarrow> \<not> op_includes op fsnotify_Create"
    using other_kinds_exclude_create by blast
qed

theorem watch_dispatches_creations_only_witness:
  "fst (watch_loop (traced (process_file ex_env ex_config)) ex_msgs ex_traced_world) = Blocked \<and>
   invoked (snd (watch_loop (traced (process_file ex_env ex_config)) ex_msgs ex_traced_world)) =
     [''/videos/new.mp4'', ''/videos/next.mp4'']"
proof -
  have ret: "fst (traced (process_file ex_env ex_config) name w) = Returns ()"
    if "name \<noteq> []" for name w
    unfolding traced_def
    by (subst process_file_run [OF that, of _ _ "''/tmp/pngs123''"]) (simp_all add: ex_env_def Let_def)
  have b: "fst (watch_loop (traced (process_file ex_env ex_config)) ex_msgs ex_traced_world) = Blocked"
    by (rule watch_loop_blocks) (auto simp: ex_msgs_def ret)
  then have run: "watch_loop (traced (process_file ex_env ex_config)) ex_msgs ex_traced_world =
      (Blocked, snd (watch_loop (traced (process_file ex_env ex_config)) ex_msgs ex_traced_world))"
    by (simp add: prod_eq_iff)
  have pres: "\<And>name w. invoked (snd (process_file ex_env ex_config name w)) = invoked w"
    by (rule process_file_invoked)
  have ev: "map ev_Name (filter (\<lambda>ev. op_includes (ev_Op ev) fsnotify_Create)
              (received_events ex_msgs)) = [''/videos/new.mp4'', ''/videos/next.mp4'']"
    by (simp add: ex_msgs_def op_includes_def fsnotify_Create_def fsnotify_Write_def
        fsnotify_Remove_def fsnotify_Chmod_def)
  from watch_dispatches_creations_only [OF pres run] ev b
  show ?thesis by (auto simp: ex_traced_world_def)
qed

end
